theory Spec2Isabelle
  imports Complex_Main
begin

section \<open>Errors and values\<close>

text \<open>
  Exceptions of the Python source are values. \<open>TypeError\<close>, \<open>ValueError\<close>,
  \<open>RuntimeError\<close> and \<open>IndexError\<close> are the built-in exceptions the source raises
  (or that Python and torch raise on its behalf); \<open>ConfigurationError\<close> and
  \<open>ShapeMismatchError\<close> are the two error classes of the specification, raised only by
  the parts of the package that are modelled from the specification.
\<close>

datatype error =
    TypeError | ValueError | RuntimeError | IndexError
  | ConfigurationError | ShapeMismatchError

text \<open>
  Floating-point values are modelled by exact reals extended with the one special value the
  source produces on purpose, \<open>NaN\<close> (the padding value of \<open>isi\<close>).
\<close>

datatype fval = Val real | NaN

section \<open>core/math.py: exponential and Holt smoothing\<close>

text \<open>
  \<^verbatim>\<open>def exponential_smoothing(obs, level, *, alpha)\<close> has two positional parameters and
  the keyword-only parameter \<open>alpha\<close>. A call is modelled by the list of its positional
  arguments (a tensor, or \<open>None\<close>) and by the keyword argument \<open>alpha\<close> when it is given.
  Python binds the arguments before the body runs: more or fewer than two positional
  arguments, or a missing \<open>alpha\<close>, raise \<open>TypeError\<close>. The arithmetic of the body is
  elementwise, so a tensor is modelled by one of its elements; arithmetic on \<open>None\<close> is a
  \<open>TypeError\<close>, and the initial branch returns \<open>obs\<close> as it is.
\<close>

definition exponential_smoothing ::
  "real option list \<Rightarrow> real option \<Rightarrow> error + real option" where
  "exponential_smoothing args kw_alpha =
     (case args of
        [obs, level] \<Rightarrow>
          (case kw_alpha of
             None \<Rightarrow> Inl TypeError
           | Some alpha \<Rightarrow>
               (case level of
                  None \<Rightarrow> Inr obs
                | Some l \<Rightarrow>
                    (case obs of
                       None \<Rightarrow> Inl TypeError
                     | Some x \<Rightarrow> Inr (Some (alpha * x + (1 - alpha) * l)))))
      | _ \<Rightarrow> Inl TypeError)"

text \<open>
  \<^verbatim>\<open>holt_linear_smoothing(obs, level, trend, *, alpha, beta)\<close>. Both calls of
  \<open>exponential_smoothing\<close> in its body pass the smoothing factor as a third positional
  argument and give no keyword.
\<close>

definition holt_linear_smoothing ::
  "real \<Rightarrow> real option \<Rightarrow> real option \<Rightarrow> real \<Rightarrow> real \<Rightarrow> error + (real \<times> real option)" where
  "holt_linear_smoothing obs level trend alpha beta =
     (case level of
        None \<Rightarrow> Inr (obs, None)
      | Some l \<Rightarrow>
          (let t = (case trend of None \<Rightarrow> obs - l | Some t0 \<Rightarrow> t0) in
           case exponential_smoothing [Some obs, Some (l + t), Some alpha] None of
             Inl e \<Rightarrow> Inl e
           | Inr None \<Rightarrow> Inl TypeError
           | Inr (Some s) \<Rightarrow>
               (case exponential_smoothing [Some (s - l), Some t, Some beta] None of
                  Inl e \<Rightarrow> Inl e
                | Inr b \<Rightarrow> Inr (s, b))))"

section \<open>core/math.py: inter-spike intervals\<close>

text \<open>
  A tensor is its shape and its elements in row-major order. \<open>isi\<close> works along the last
  (time) dimension, so the train of index \<open>i\<close> of a tensor with \<open>b\<close> trains of length \<open>t\<close>
  is the slice of \<open>t\<close> elements starting at \<open>i * t\<close>.
\<close>

datatype 'a tensor = Tensor (shape: "nat list") (data: "'a list")

definition wf_tensor :: "'a tensor \<Rightarrow> bool" where
  "wf_tensor x \<longleftrightarrow> length (data x) = prod_list (shape x)"

definition trains :: "nat \<Rightarrow> nat \<Rightarrow> 'a list \<Rightarrow> 'a list list" where
  "trains b t xs = map (\<lambda>i. take t (drop (i * t) xs)) [0..<b]"

text \<open>
  \<^verbatim>\<open>ein.rearrange(spikes, "t ... -> ... t")\<close> and its inverse
  \<^verbatim>\<open>ein.rearrange(x, "... t -> t ...")\<close>: the axis moves, the elements are permuted.
  A tensor without any dimension does not match the pattern.
\<close>

definition time_to_last :: "'a tensor \<Rightarrow> error + 'a tensor" where
  "time_to_last x =
     (case shape x of
        [] \<Rightarrow> Inl RuntimeError
      | t # rest \<Rightarrow>
          (let n = prod_list rest in
           Inr (Tensor (rest @ [t])
                  (concat (map (\<lambda>i. map (\<lambda>j. data x ! (j * n + i)) [0..<t]) [0..<n])))))"

definition time_to_first :: "'a tensor \<Rightarrow> error + 'a tensor" where
  "time_to_first x =
     (case shape x of
        [] \<Rightarrow> Inl RuntimeError
      | _ \<Rightarrow>
          (let c = last (shape x); lead = butlast (shape x); n = prod_list lead in
           Inr (Tensor (c # lead)
                  (concat (map (\<lambda>j. map (\<lambda>i. data x ! (i * c + j)) [0..<n]) [0..<c])))))"

text \<open>
  \<^verbatim>\<open>F.pad(spikes, (1, 0), mode="constant", value=True)\<close>: one \<open>True\<close> in front of every
  train. torch refuses to pad a tensor without dimensions.
\<close>

definition pad_front :: "bool tensor \<Rightarrow> error + bool tensor" where
  "pad_front x =
     (case shape x of
        [] \<Rightarrow> Inl RuntimeError
      | _ \<Rightarrow>
          (let lead = butlast (shape x); t = last (shape x) in
           Inr (Tensor (lead @ [Suc t])
                  (concat (map (\<lambda>r. True # r) (trains (prod_list lead) t (data x)))))))"

text \<open>
  \<^verbatim>\<open>torch.nonzero\<close> lists the indices of the non-zero elements in row-major order.
  \<open>nonzero\<close> is the one-dimensional case; \<open>nonzero_last\<close> is
  \<^verbatim>\<open>torch.nonzero(padded)[..., -1]\<close>, the last coordinate of every index, which for the
  element at row-major position \<open>i\<close> is \<open>i mod n\<close>, with \<open>n\<close> the size of the last dimension.
\<close>

fun nonzero_from :: "nat \<Rightarrow> bool list \<Rightarrow> nat list" where
  "nonzero_from k [] = []"
| "nonzero_from k (x # xs) =
     (if x then k # nonzero_from (Suc k) xs else nonzero_from (Suc k) xs)"

definition nonzero :: "bool list \<Rightarrow> nat list" where
  "nonzero xs = nonzero_from 0 xs"

definition nonzero_last :: "bool tensor \<Rightarrow> nat list" where
  "nonzero_last x = map (\<lambda>i. i mod last (shape x)) (nonzero (data x))"

text \<open>
  \<^verbatim>\<open>torch.tensor_split(x, indices)\<close> on a one-dimensional tensor: the slices
  \<open>x[0:i1]\<close>, \<open>x[i1:i2]\<close>, ..., \<open>x[ik:]\<close>, always at least one.
\<close>

fun tensor_split_from :: "nat \<Rightarrow> 'a list \<Rightarrow> nat list \<Rightarrow> 'a list list" where
  "tensor_split_from s xs [] = [drop s xs]"
| "tensor_split_from s xs (i # js) = take (i - s) (drop s xs) # tensor_split_from i xs js"

definition tensor_split :: "'a list \<Rightarrow> nat list \<Rightarrow> 'a list list" where
  "tensor_split xs splits = tensor_split_from 0 xs splits"

text \<open>
  \<^verbatim>\<open>nn.utils.rnn.pad_sequence(seqs, batch_first=True, padding_value=float("nan"))\<close>:
  every sequence is filled up with \<open>NaN\<close> to the length of the longest; an empty list of
  sequences is refused.
\<close>

primrec max_list :: "nat list \<Rightarrow> nat" where
  "max_list [] = 0"
| "max_list (x # xs) = max x (max_list xs)"

definition pad_sequence :: "real list list \<Rightarrow> error + fval list list" where
  "pad_sequence seqs =
     (if seqs = [] then Inl RuntimeError
      else (let m = max_list (map length seqs) in
            Inr (map (\<lambda>s. map Val s @ replicate (m - length s) NaN) seqs)))"

text \<open>
  \<^verbatim>\<open>torch.diff(x, dim=-1)\<close> on one row: the differences of neighbours, none for a row
  of fewer than two elements; a difference with \<open>NaN\<close> is \<open>NaN\<close>.
\<close>

fun fsub :: "fval \<Rightarrow> fval \<Rightarrow> fval" where
  "fsub (Val a) (Val b) = Val (a - b)"
| "fsub _ _ = NaN"

definition diff :: "fval list \<Rightarrow> fval list" where
  "diff xs = map (\<lambda>(a, b). fsub b a) (zip xs (tl xs))"

text \<open>
  \<^verbatim>\<open>x.view(*lead, -1)\<close>: torch infers the last size from the number of elements. It
  refuses when the elements do not divide evenly, and also when the given sizes multiply
  to zero, because then the size \<open>-1\<close> stands for is ambiguous.
\<close>

definition view_last :: "nat list \<Rightarrow> 'a list \<Rightarrow> error + 'a tensor" where
  "view_last lead xs =
     (let newsize = prod_list lead; n = length xs in
      if n = newsize \<or> (0 < newsize \<and> n mod newsize = 0)
      then (if newsize = 0 then Inl RuntimeError
            else Inr (Tensor (lead @ [n div newsize]) xs))
      else Inl RuntimeError)"

text \<open>
  \<^verbatim>\<open>isi(spikes, step_time=None, time_first=False)\<close>, statement by statement.
\<close>

definition isi :: "bool tensor \<Rightarrow> real option \<Rightarrow> bool \<Rightarrow> error + fval tensor" where
  "isi spikes0 step_time time_first =
     (case (if time_first then time_to_last spikes0 else Inr spikes0) of
        Inl e \<Rightarrow> Inl e
      | Inr spikes \<Rightarrow>
          (let st = (case step_time of None \<Rightarrow> 1 | Some s \<Rightarrow> s) in
           case pad_front spikes of
             Inl e \<Rightarrow> Inl e
           | Inr padded \<Rightarrow>
               (let nz = nonzero_last padded;
                    splits = tl (nonzero (map (\<lambda>i. i = 0) nz));
                    pieces = tensor_split (map (\<lambda>i. (real i - 1) * st) nz) splits
                in case pad_sequence pieces of
                     Inl e \<Rightarrow> Inl e
                   | Inr padseq \<Rightarrow>
                       (let intervals = map diff (map (drop 1) padseq) in
                        case view_last (butlast (shape spikes)) (concat intervals) of
                          Inl e \<Rightarrow> Inl e
                        | Inr r \<Rightarrow> (if time_first then time_to_first r else Inr r)))))"

text \<open>
  For the statements about \<open>isi\<close>: the start offsets of consecutive segments of a
  concatenation, the intervals between the spike times of one train in units of the step
  time, and the row the documentation of \<open>isi\<close> describes for a train when the longest
  train of the batch has \<open>c\<close> spikes (its intervals, then \<open>NaN\<close> up to \<open>c - 1\<close> entries).
\<close>

fun offsets :: "nat \<Rightarrow> 'a list list \<Rightarrow> nat list" where
  "offsets k [] = []"
| "offsets k (s # ss) = k # offsets (k + length s) ss"

definition intervals :: "real \<Rightarrow> nat list \<Rightarrow> real list" where
  "intervals st ps = map (\<lambda>(a, b). real b * st - real a * st) (zip ps (tl ps))"

definition isi_row :: "nat \<Rightarrow> real \<Rightarrow> bool list \<Rightarrow> fval list" where
  "isi_row c st r =
     map Val (intervals st (nonzero r)) @
     replicate ((c - 1) - (length (nonzero r) - 1)) NaN"

section \<open>The delay line and the interpolation engine\<close>

text \<open>
  \<open>neural/synapses/current.py\<close> imports \<open>InfernoSynapse\<close>, the mixins
  \<open>SpikeDerivedCurrentMixin\<close> and \<open>SpikeCurrentMixin\<close>, \<open>argtest\<close>, \<open>interp_nearest\<close> and
  \<open>interp_previous\<close> from modules whose source is not part of the development. The
  definitions of this section stand for the delay line and the interpolation the mixins
  provide, as sections 3, 4.1 and 4.2 of the specification describe them.
\<close>

text \<open>
  Modelled from the spec: the delay line behind the attributes \<open>spike_\<close> and \<open>current_\<close>
  of the mixins (section 3), a ring buffer. It has a fixed number of slots, one observation
  (one value per unit) in each, and a step counter.
\<close>

record 'a history =
  slots :: "'a list list"
  counter :: nat

text \<open>
  Modelled from the spec: the capacity of a delay line, \<open>ceil(max_delay / dt) + 1\<close>
  (section 3).
\<close>

definition capacity :: "real \<Rightarrow> real \<Rightarrow> nat" where
  "capacity max_delay step = nat \<lceil>max_delay / step\<rceil> + 1"

text \<open>
  Modelled from the spec: the delay line a mixin constructor creates from the initial
  tensor it is given (section 3: state is created at construction with the given shape
  and batch size).
\<close>

definition new_history :: "nat \<Rightarrow> 'a list \<Rightarrow> 'a history" where
  "new_history cap init = \<lparr>slots = replicate cap init, counter = 0\<rparr>"

text \<open>
  Modelled from the spec: \<open>write\<close> of the delay line (section 4.2). The newest
  observation overwrites the oldest slot, and the step counter advances.
\<close>

definition write_obs :: "'a history \<Rightarrow> 'a list \<Rightarrow> 'a history" where
  "write_obs h v =
     h\<lparr>slots := (slots h)[counter h mod length (slots h) := v], counter := counter h + 1\<rparr>"

text \<open>
  Modelled from the spec: \<open>reset\<close> of a history, which \<open>clear\<close> calls (section 4.2). Every
  slot gets the resting value, the step counter goes back to 0, and the capacity stays.
\<close>

definition reset :: "'a history \<Rightarrow> 'a \<Rightarrow> 'a history" where
  "reset h rest = h\<lparr>slots := map (map (\<lambda>_. rest)) (slots h), counter := 0\<rparr>"

text \<open>
  Modelled from the spec: the observation of a given age in steps (section 2: addressable
  by age), age 0 being the newest, the slot written last.
\<close>

definition at_age :: "'a history \<Rightarrow> nat \<Rightarrow> 'a list" where
  "at_age h k =
     slots h ! ((counter h + length (slots h) - 1 - k) mod length (slots h))"

text \<open>
  Modelled from the spec: the newest observation, which the properties \<open>spike\<close> and
  \<open>current\<close> of the mixins read.
\<close>

definition peek :: "'a history \<Rightarrow> 'a list" where
  "peek h = at_age h 0"

text \<open>
  Modelled from the spec: all observations of a delay line, listed by age.
\<close>

definition by_age :: "'a history \<Rightarrow> 'a list list" where
  "by_age h = map (at_age h) [0..<length (slots h)]"

text \<open>
  A history is at rest when every value in every slot is the resting value.
\<close>

definition resting :: "'a \<Rightarrow> 'a history \<Rightarrow> bool" where
  "resting rest h \<longleftrightarrow> list_all (list_all (\<lambda>v. v = rest)) (slots h)"

text \<open>
  Modelled from the spec: the two interpolation functions \<open>interp_nearest\<close> and
  \<open>interp_previous\<close> that a synapse chooses between (section 4.1).
\<close>

datatype interp = interp_nearest | interp_previous

text \<open>
  Modelled from the spec: the interpolation engine (section 4.1). It gets the two
  observations that bracket the queried age, the newer one first, each with its age in
  time units. A window of width zero gives its single value. \<open>previous\<close> ignores the newer
  bracket and returns the observation whose age is at least the queried one. \<open>nearest\<close>
  snaps to the closer bracket when a bracket is within the tolerance of the queried age,
  and interpolates linearly in the age otherwise.
\<close>

definition interpolate ::
  "interp \<Rightarrow> real \<Rightarrow> real \<times> real \<Rightarrow> real \<times> real \<Rightarrow> real \<Rightarrow> real" where
  "interpolate mode tol newer older q =
     (let (v_new, a_new) = newer; (v_old, a_old) = older in
      if a_new = a_old then v_new
      else (case mode of
              interp_previous \<Rightarrow> v_old
            | interp_nearest \<Rightarrow>
                (if \<bar>q - a_new\<bar> \<le> tol \<or> \<bar>a_old - q\<bar> \<le> tol
                 then (if q - a_new \<le> a_old - q then v_new else v_old)
                 else v_new + (v_old - v_new) * ((q - a_new) / (a_old - a_new)))))"

text \<open>
  Modelled from the spec: the read of one unit at the delay \<open>d\<close> (section 4.2). The delay
  is the fractional buffer offset \<open>d / dt\<close>, bracketed by the observations of age \<open>floor\<close>
  and \<open>ceiling\<close> of it.
\<close>

definition interp_at :: "interp \<Rightarrow> real \<Rightarrow> real \<Rightarrow> real list \<Rightarrow> real \<Rightarrow> real" where
  "interp_at mode tol step vals d =
     (let q = d / step; lo = nat \<lfloor>q\<rfloor>; hi = nat \<lceil>q\<rceil> in
      interpolate mode tol (vals ! lo, real lo * step) (vals ! hi, real hi * step) d)"

text \<open>
  Modelled from the spec: \<open>read_at\<close> of the delay line (section 4.2), for real-valued
  observations listed by age. The delay is a tensor with one entry per unit, or a single
  entry that is broadcast; any other size is a \<open>ShapeMismatchError\<close>. An entry below 0 or
  above the configured maximum delay is not an error: it gives the overbound value when
  there is one, and is clamped to the violated bound when the overbound is \<open>None\<close>.
\<close>

definition read_at ::
  "interp \<Rightarrow> real \<Rightarrow> real option \<Rightarrow> real \<Rightarrow> real \<Rightarrow> real list list \<Rightarrow> nat \<Rightarrow> real list
     \<Rightarrow> error + real list" where
  "read_at mode tol overbound step max_delay hist n delays =
     (if length delays = n \<or> length delays = 1
      then Inr (map (\<lambda>u.
             (let d = (if length delays = 1 then delays ! 0 else delays ! u);
                  vals = map (\<lambda>obs. obs ! u) hist
              in if d < 0 \<or> max_delay < d
                 then (case overbound of
                         Some c \<Rightarrow> c
                       | None \<Rightarrow> interp_at mode tol step vals (min (max d 0) max_delay))
                 else interp_at mode tol step vals d)) [0..<n])
      else Inl ShapeMismatchError)"

section \<open>neural/synapses/current.py: the delta synapses\<close>

text \<open>
  Modelled from the spec: the attributes of \<open>InfernoSynapse\<close>, whose constructor is
  \<open>InfernoSynapse.__init__(shape, step_time, delay, batch_size)\<close>. Construction fixes the
  shape of the unit group, the step time, the maximum delay and the batch size
  (section 4.2), and a step time that is not positive, a negative delay or a batch size
  below one is a \<open>ConfigurationError\<close> (sections 4.2, 6 and 7).
\<close>

record InfernoSynapse =
  unit_shape :: "nat list"
  dt :: real
  delay :: real
  batch_size :: nat

text \<open>
  Modelled from the spec: \<open>InfernoSynapse.__init__\<close>, which refuses a step time that is
  not positive, a negative delay and a batch size below one with a \<open>ConfigurationError\<close>,
  and otherwise keeps its four arguments.
\<close>

definition InfernoSynapse_init ::
  "nat list \<Rightarrow> real \<Rightarrow> real \<Rightarrow> int \<Rightarrow> error + InfernoSynapse" where
  "InfernoSynapse_init shp step_time max_delay batch =
     (if step_time \<le> 0 \<or> max_delay < 0 \<or> batch < 1 then Inl ConfigurationError
      else Inr \<lparr>unit_shape = shp, dt = step_time, delay = max_delay,
                batch_size = nat batch\<rparr>)"

text \<open>
  Modelled from the spec: \<open>argtest.neq(name, value, limit, float)\<close>, the check behind
  ``\<open>spike_q\<close> must be non-zero; zero triggers a \<open>ConfigurationError\<close> at construction''
  (section 4.3). It returns the value it has checked.
\<close>

definition argtest_neq :: "real \<Rightarrow> real \<Rightarrow> error + real" where
  "argtest_neq v limit = (if v = limit then Inl ConfigurationError else Inr v)"

text \<open>
  \<^verbatim>\<open>interp_mode.lower()\<close>: the letters \<open>A\<close> to \<open>Z\<close> become \<open>a\<close> to \<open>z\<close>, and every other
  character of the (ASCII) string stays as it is.
\<close>

definition lower_char :: "char \<Rightarrow> char" where
  "lower_char c =
     (case map_of (zip ''ABCDEFGHIJKLMNOPQRSTUVWXYZ'' ''abcdefghijklmnopqrstuvwxyz'') c of
        Some l \<Rightarrow> l
      | None \<Rightarrow> c)"

definition lower :: "string \<Rightarrow> string" where
  "lower s = map lower_char s"

text \<open>
  The keyword arguments of \<open>DeltaCurrent.__init__\<close> and \<open>DeltaPlusCurrent.__init__\<close>
  (both have the same signature), and their default values.
\<close>

record kwargs =
  kw_shape :: "nat list"
  kw_step_time :: real
  kw_spike_q :: real
  kw_delay :: real
  kw_interp_mode :: string
  kw_interp_tol :: real
  kw_current_overbound :: "real option"
  kw_spike_overbound :: "bool option"
  kw_batch_size :: int

definition defaults :: "nat list \<Rightarrow> real \<Rightarrow> real \<Rightarrow> kwargs" where
  "defaults shp step_time q =
     \<lparr>kw_shape = shp, kw_step_time = step_time, kw_spike_q = q, kw_delay = 0,
      kw_interp_mode = ''previous'', kw_interp_tol = 0, kw_current_overbound = Some 0,
      kw_spike_overbound = Some False, kw_batch_size = 1\<rparr>"

text \<open>
  The state of a \<open>DeltaCurrent\<close>: the attributes of \<open>InfernoSynapse\<close>, \<open>spike_q\<close>, and
  what the mixin constructor receives and keeps, with the spike history \<open>spike_\<close>
  (the field \<open>spike_hist\<close>) created from the all-\<open>False\<close> tensor of the batched shape. A
  \<open>DeltaPlusCurrent\<close> has the same attributes and the current history \<open>current_\<close> (the
  field \<open>current_hist\<close>), created from zeros.
\<close>

record DeltaCurrent = InfernoSynapse +
  spike_q :: real
  current_interp :: interp
  spike_interp :: interp
  current_overbound :: "real option"
  spike_overbound :: "bool option"
  tolerance :: real
  spike_hist :: "bool history"

record DeltaPlusCurrent = DeltaCurrent +
  current_hist :: "real history"

definition units :: "'a InfernoSynapse_scheme \<Rightarrow> nat" where
  "units s = batch_size s * prod_list (unit_shape s)"

definition match_interp_mode :: "string \<Rightarrow> error + interp" where
  "match_interp_mode interp_mode =
     (if lower interp_mode = ''nearest'' then Inr interp_nearest
      else if lower interp_mode = ''previous'' then Inr interp_previous
      else Inl RuntimeError)"

definition DeltaCurrent_init :: "kwargs \<Rightarrow> error + DeltaCurrent" where
  "DeltaCurrent_init k =
     (case InfernoSynapse_init (kw_shape k) (kw_step_time k) (kw_delay k) (kw_batch_size k) of
        Inl e \<Rightarrow> Inl e
      | Inr base \<Rightarrow>
          (case argtest_neq (kw_spike_q k) 0 of
             Inl e \<Rightarrow> Inl e
           | Inr q \<Rightarrow>
               (case match_interp_mode (kw_interp_mode k) of
                  Inl e \<Rightarrow> Inl e
                | Inr interp \<Rightarrow>
                    Inr \<lparr>unit_shape = unit_shape base, dt = dt base, delay = delay base,
                         batch_size = batch_size base, spike_q = q,
                         current_interp = interp, spike_interp = interp,
                         current_overbound = kw_current_overbound k,
                         spike_overbound = kw_spike_overbound k,
                         tolerance = kw_interp_tol k,
                         spike_hist = new_history (capacity (delay base) (dt base))
                                    (replicate (units base) False)\<rparr>)))"

definition DeltaPlusCurrent_init :: "kwargs \<Rightarrow> error + DeltaPlusCurrent" where
  "DeltaPlusCurrent_init k =
     (case InfernoSynapse_init (kw_shape k) (kw_step_time k) (kw_delay k) (kw_batch_size k) of
        Inl e \<Rightarrow> Inl e
      | Inr base \<Rightarrow>
          (case argtest_neq (kw_spike_q k) 0 of
             Inl e \<Rightarrow> Inl e
           | Inr q \<Rightarrow>
               (case match_interp_mode (kw_interp_mode k) of
                  Inl e \<Rightarrow> Inl e
                | Inr interp \<Rightarrow>
                    Inr \<lparr>unit_shape = unit_shape base, dt = dt base, delay = delay base,
                         batch_size = batch_size base, spike_q = q,
                         current_interp = interp, spike_interp = interp,
                         current_overbound = kw_current_overbound k,
                         spike_overbound = kw_spike_overbound k,
                         tolerance = kw_interp_tol k,
                         spike_hist = new_history (capacity (delay base) (dt base))
                                    (replicate (units base) False),
                         current_hist = new_history (capacity (delay base) (dt base))
                                      (replicate (units base) 0)\<rparr>)))"

text \<open>
  \<^verbatim>\<open>_to_current\<close>: \<^verbatim>\<open>spikes * (self.spike_q / self.dt)\<close>, a spike counting as 1 and no spike
  as 0.
\<close>

definition to_current :: "'a DeltaCurrent_scheme \<Rightarrow> bool list \<Rightarrow> real list" where
  "to_current s spikes = map (\<lambda>b. of_bool b * (spike_q s / dt s)) spikes"

text \<open>
  Modelled from the spec: assigning the property \<open>spike\<close> of the mixins, as \<open>forward\<close>
  does. It writes one observation to the spike history, after the check of its size
  against the unit group (\<open>ShapeMismatchError\<close>, section 7).
\<close>

definition set_spike ::
  "'a DeltaCurrent_scheme \<Rightarrow> bool list \<Rightarrow> error + 'a DeltaCurrent_scheme" where
  "set_spike s v =
     (if length v = units s then Inr (s\<lparr>spike_hist := write_obs (spike_hist s) v\<rparr>)
      else Inl ShapeMismatchError)"

text \<open>
  Modelled from the spec: reading the property \<open>current\<close> of \<open>SpikeDerivedCurrentMixin\<close>.
  The delta synapse keeps no current of its own (section 4.3): the current is
  \<open>_to_current\<close> of the newest spikes.
\<close>

definition derived_current :: "'a DeltaCurrent_scheme \<Rightarrow> real list" where
  "derived_current s = to_current s (peek (spike_hist s))"

text \<open>
  Modelled from the spec: assigning the property \<open>current\<close> of \<open>SpikeCurrentMixin\<close>, which
  writes one observation to the current history after the check of its size.
\<close>

definition set_current :: "DeltaPlusCurrent \<Rightarrow> real list \<Rightarrow> error + DeltaPlusCurrent" where
  "set_current s v =
     (if length v = units s then Inr (s\<lparr>current_hist := write_obs (current_hist s) v\<rparr>)
      else Inl ShapeMismatchError)"

text \<open>
  Modelled from the spec: \<open>current_at\<close> of \<open>SpikeDerivedCurrentMixin\<close> (section 4.3). It
  delegates to \<open>read_at\<close> on the history the variant keeps: the spike history, read
  through \<open>_to_current\<close>, with the current interpolation and the current overbound.
\<close>

definition DeltaCurrent_current_at :: "DeltaCurrent \<Rightarrow> real list \<Rightarrow> error + real list" where
  "DeltaCurrent_current_at s delays =
     read_at (current_interp s) (tolerance s) (current_overbound s) (dt s) (delay s)
       (map (to_current s) (by_age (spike_hist s))) (units s) delays"

text \<open>
  Modelled from the spec: \<open>current_at\<close> of \<open>SpikeCurrentMixin\<close> (section 4.3), which
  delegates to \<open>read_at\<close> on the current history.
\<close>

definition DeltaPlusCurrent_current_at ::
  "DeltaPlusCurrent \<Rightarrow> real list \<Rightarrow> error + real list" where
  "DeltaPlusCurrent_current_at s delays =
     read_at (current_interp s) (tolerance s) (current_overbound s) (dt s) (delay s)
       (by_age (current_hist s)) (units s) delays"

text \<open>
  \<open>clear\<close> and \<open>forward\<close> of \<open>DeltaCurrent\<close>. \<^verbatim>\<open>inputs[0]\<close> of an empty argument list is an
  \<open>IndexError\<close>.
\<close>

definition DeltaCurrent_clear :: "DeltaCurrent \<Rightarrow> DeltaCurrent" where
  "DeltaCurrent_clear s = s\<lparr>spike_hist := reset (spike_hist s) False\<rparr>"

definition DeltaCurrent_forward ::
  "DeltaCurrent \<Rightarrow> bool list list \<Rightarrow> error + (real list \<times> DeltaCurrent)" where
  "DeltaCurrent_forward s inputs =
     (case inputs of
        [] \<Rightarrow> Inl IndexError
      | x # _ \<Rightarrow>
          (case set_spike s x of
             Inl e \<Rightarrow> Inl e
           | Inr s' \<Rightarrow> Inr (derived_current s', s')))"

text \<open>
  \<open>clear\<close> of \<open>DeltaPlusCurrent\<close>.
\<close>

definition DeltaPlusCurrent_clear :: "DeltaPlusCurrent \<Rightarrow> DeltaPlusCurrent" where
  "DeltaPlusCurrent_clear s =
     (s\<lparr>spike_hist := reset (spike_hist s) False\<rparr>)\<lparr>current_hist := reset (current_hist s) 0\<rparr>"

text \<open>
  The sum of two tensors as torch computes it, with broadcasting. The shapes are aligned
  at the last dimension and the shorter one is filled up with ones in front; two sizes fit
  when they are equal or one of them is 1, and the result has the other one; sizes that do
  not fit are a \<open>RuntimeError\<close>. \<open>expand\<close> repeats the elements of a tensor along the
  dimensions of size 1 that the result widens.
\<close>

definition pad_shape :: "nat \<Rightarrow> nat list \<Rightarrow> nat list" where
  "pad_shape n sh = replicate (n - length sh) 1 @ sh"

fun broadcast_dims :: "nat list \<Rightarrow> nat list \<Rightarrow> error + nat list" where
  "broadcast_dims (a # as) (b # bs) =
     (if a = b \<or> b = 1
      then (case broadcast_dims as bs of Inl e \<Rightarrow> Inl e | Inr sh \<Rightarrow> Inr (a # sh))
      else if a = 1
      then (case broadcast_dims as bs of Inl e \<Rightarrow> Inl e | Inr sh \<Rightarrow> Inr (b # sh))
      else Inl RuntimeError)"
| "broadcast_dims _ _ = Inr []"

fun expand :: "nat list \<Rightarrow> nat list \<Rightarrow> 'a list \<Rightarrow> 'a list" where
  "expand (a # as) (b # bs) xs =
     concat (map (expand as bs)
       (if a = b then trains a (prod_list as) xs
        else replicate b (take (prod_list as) xs)))"
| "expand _ _ xs = xs"

definition tensor_add :: "real tensor \<Rightarrow> real tensor \<Rightarrow> error + real tensor" where
  "tensor_add x y =
     (let n = max (length (shape x)) (length (shape y));
          sx = pad_shape n (shape x); sy = pad_shape n (shape y)
      in case broadcast_dims sx sy of
           Inl e \<Rightarrow> Inl e
         | Inr sh \<Rightarrow>
             Inr (Tensor sh (map (\<lambda>(u, v). u + v)
                               (zip (expand sx sh (data x)) (expand sy sh (data y))))))"

text \<open>
  \<^verbatim>\<open>sum((first, *injected))\<close>: Python adds the tensors from the left, starting from 0,
  which leaves the first tensor as it is.
\<close>

fun tensor_sum :: "real tensor \<Rightarrow> real tensor list \<Rightarrow> error + real tensor" where
  "tensor_sum acc [] = Inr acc"
| "tensor_sum acc (x # xs) =
     (case tensor_add acc x of Inl e \<Rightarrow> Inl e | Inr acc' \<Rightarrow> tensor_sum acc' xs)"

text \<open>
  \<open>forward\<close> of \<open>DeltaPlusCurrent\<close>. The injected currents are broadcast by their shapes,
  so the inputs are tensors with their shapes: \<^verbatim>\<open>inputs[0].bool()\<close> is the spike tensor,
  \<^verbatim>\<open>sum((inputs[0] * (self.spike_q / self.dt), *inputs[1:]))\<close> adds the injected currents
  to the current of the spikes, and the sum is assigned to \<open>current\<close> and read back.
\<close>

definition DeltaPlusCurrent_forward ::
  "DeltaPlusCurrent \<Rightarrow> real tensor list \<Rightarrow> error + (real list \<times> DeltaPlusCurrent)" where
  "DeltaPlusCurrent_forward s inputs =
     (case inputs of
        [] \<Rightarrow> Inl IndexError
      | x # injected \<Rightarrow>
          (case set_spike s (map (\<lambda>v. v \<noteq> 0) (data x)) of
             Inl e \<Rightarrow> Inl e
           | Inr s1 \<Rightarrow>
               (case tensor_sum
                       (Tensor (shape x) (map (\<lambda>v. v * (spike_q s1 / dt s1)) (data x)))
                       injected of
                  Inl e \<Rightarrow> Inl e
                | Inr tot \<Rightarrow>
                    (case set_current s1 (data tot) of
                       Inl e \<Rightarrow> Inl e
                     | Inr s2 \<Rightarrow> Inr (peek (current_hist s2), s2)))))"

text \<open>
  The invariant of a synapse that construction establishes and \<open>clear\<close> and \<open>forward\<close>
  keep: a positive step time, a maximum delay that is not negative, a charge that is not
  zero, and histories of the configured capacity (at least one slot) whose observations
  have one value per unit.
\<close>

definition wf_history :: "nat \<Rightarrow> 'a history \<Rightarrow> bool" where
  "wf_history n h \<longleftrightarrow> slots h \<noteq> [] \<and> list_all (\<lambda>obs. length obs = n) (slots h)"

definition valid :: "'a DeltaCurrent_scheme \<Rightarrow> bool" where
  "valid s \<longleftrightarrow>
     0 < dt s \<and> 0 \<le> delay s \<and> spike_q s \<noteq> 0 \<and>
     length (slots (spike_hist s)) = capacity (delay s) (dt s) \<and>
     wf_history (units s) (spike_hist s)"

definition valid_plus :: "DeltaPlusCurrent \<Rightarrow> bool" where
  "valid_plus s \<longleftrightarrow>
     valid s \<and> length (slots (current_hist s)) = capacity (delay s) (dt s) \<and>
     wf_history (units s) (current_hist s)"

section \<open>The synapse constructor and neural/connections/linear.py\<close>

text \<open>
  A connection calls the synapse constructor it is given with four positional arguments.
  Python binds them by position, whatever their types, so the arguments are values of a
  small universe: \<open>None\<close>, an \<open>int\<close> or a \<open>float\<close>.
\<close>

datatype pyval = PNone | PInt int | PFloat real

type_synonym 'syn SynapseConstructor = "pyval \<Rightarrow> pyval \<Rightarrow> pyval \<Rightarrow> pyval \<Rightarrow> error + 'syn"

text \<open>
  \<open>DeltaCurrent.partialconstructor\<close> and \<open>DeltaPlusCurrent.partialconstructor\<close> (they
  are the same text) return
  \<^verbatim>\<open>def constructor(shape, step_time, delay, batch_size): return cls(shape=shape, ...)\<close>.
  The call of \<open>cls\<close> is represented by its keyword arguments: the four parameters of
  \<open>constructor\<close> as they were bound, and the five values captured by the closure.
\<close>

record cls_call =
  arg_shape :: pyval
  arg_step_time :: pyval
  arg_spike_q :: real
  arg_delay :: pyval
  arg_interp_mode :: string
  arg_interp_tol :: real
  arg_current_overbound :: "real option"
  arg_spike_overbound :: "bool option"
  arg_batch_size :: pyval

definition partialconstructor ::
  "real \<Rightarrow> string \<Rightarrow> real \<Rightarrow> real option \<Rightarrow> bool option \<Rightarrow> cls_call SynapseConstructor" where
  "partialconstructor q interp_mode interp_tol c_overbound s_overbound =
     (\<lambda>shp step_time max_delay batch.
        Inr \<lparr>arg_shape = shp, arg_step_time = step_time, arg_spike_q = q,
             arg_delay = max_delay, arg_interp_mode = interp_mode,
             arg_interp_tol = interp_tol, arg_current_overbound = c_overbound,
             arg_spike_overbound = s_overbound, arg_batch_size = batch\<rparr>)"

text \<open>
  Modelled from the spec: \<open>Connection.__init__\<close>, whose module is not part of the
  development, keeps the synapse and the parameters \<open>weight\<close>, \<open>bias\<close> and \<open>delay\<close> it is
  given (section 2: a connection combines the readout of a synapse with a learned weight
  and bias transform). Of a parameter the model keeps the shape: the values are random or
  zero. The connections register their shapes as extras.
\<close>

record 'syn Connection =
  synapse :: 'syn
  weight_shape :: "int list"
  bias_shape :: "int list option"
  delay_shape :: "int list option"
  in_shape :: "int list"
  out_shape :: "int list"

text \<open>
  \<^verbatim>\<open>torch.rand(*sizes)\<close>, \<^verbatim>\<open>torch.zeros(*sizes)\<close> and \<^verbatim>\<open>torch.eye(n)\<close> create a tensor of
  the given sizes and refuse a negative size with a \<open>RuntimeError\<close>. The result is the
  shape of the tensor; the memory a tensor takes is not modelled.
\<close>

definition new_tensor :: "int list \<Rightarrow> error + int list" where
  "new_tensor sizes = (if list_ex (\<lambda>n. n < 0) sizes then Inl RuntimeError else Inr sizes)"

text \<open>
  \<open>not delay\<close> is true of \<open>None\<close> and of \<open>0.0\<close>; \<open>delay_arg\<close> is
  \<^verbatim>\<open>None if not delay else float(delay)\<close>; \<open>optional_tensor skip sizes\<close> is
  \<^verbatim>\<open>None if skip else nn.Parameter(torch.rand(*sizes))\<close> (or \<open>torch.zeros\<close>).
\<close>

definition not_delay :: "real option \<Rightarrow> bool" where
  "not_delay d = (case d of None \<Rightarrow> True | Some x \<Rightarrow> x = 0)"

definition delay_arg :: "real option \<Rightarrow> pyval" where
  "delay_arg d = (case d of None \<Rightarrow> PNone | Some x \<Rightarrow> if x = 0 then PNone else PFloat x)"

definition optional_tensor :: "bool \<Rightarrow> int list \<Rightarrow> error + int list option" where
  "optional_tensor skip sizes =
     (if skip then Inr None
      else (case new_tensor sizes of Inl e \<Rightarrow> Inl e | Inr sh \<Rightarrow> Inr (Some sh)))"

text \<open>
  The constructors of the three connections, for calls that leave the initialisers
  \<open>weight_init\<close>, \<open>bias_init\<close> and \<open>delay_init\<close> at their default \<open>None\<close>. A shape given as
  one \<open>int\<close> is the list of that one number. After the two checks, the arguments of
  \<open>Connection.__init__\<close> are evaluated from left to right: the call of the synapse
  constructor, then the tensors of \<open>weight\<close>, \<open>bias\<close> and \<open>delay\<close>. \<open>LateralLinear\<close>
  multiplies its weight by \<^verbatim>\<open>1 - torch.eye(size)\<close> and registers the same mask as a
  buffer afterwards, which the record does not keep.
\<close>

definition DenseLinear_init ::
  "int list \<Rightarrow> int list \<Rightarrow> real \<Rightarrow> 'syn SynapseConstructor \<Rightarrow> int \<Rightarrow> bool \<Rightarrow> real option
     \<Rightarrow> error + 'syn Connection" where
  "DenseLinear_init in_shp out_shp step_time syn_ctor batch bias max_delay =
     (let input_size = prod_list in_shp; output_size = prod_list out_shp in
      if step_time \<le> 0 then Inl ValueError
      else if (case max_delay of None \<Rightarrow> False | Some d \<Rightarrow> d \<le> 0) then Inl ValueError
      else (case syn_ctor (PInt input_size) (PFloat step_time) (PInt batch)
                   (delay_arg max_delay) of
              Inl e \<Rightarrow> Inl e
            | Inr syn \<Rightarrow>
                (case new_tensor [output_size, input_size] of
                   Inl e \<Rightarrow> Inl e
                 | Inr w \<Rightarrow>
                     (case optional_tensor (\<not> bias) [output_size, 1] of
                        Inl e \<Rightarrow> Inl e
                      | Inr b \<Rightarrow>
                          (case optional_tensor (not_delay max_delay)
                                  [output_size, input_size] of
                             Inl e \<Rightarrow> Inl e
                           | Inr d \<Rightarrow>
                               Inr \<lparr>synapse = syn, weight_shape = w, bias_shape = b,
                                    delay_shape = d, in_shape = in_shp,
                                    out_shape = out_shp\<rparr>)))))"

definition DirectLinear_init ::
  "int list \<Rightarrow> real \<Rightarrow> 'syn SynapseConstructor \<Rightarrow> int \<Rightarrow> bool \<Rightarrow> real option
     \<Rightarrow> error + 'syn Connection" where
  "DirectLinear_init shp step_time syn_ctor batch bias max_delay =
     (let size = prod_list shp in
      if step_time \<le> 0 then Inl ValueError
      else if (case max_delay of None \<Rightarrow> False | Some d \<Rightarrow> d \<le> 0) then Inl ValueError
      else (case syn_ctor (PInt size) (PFloat step_time) (PInt batch) (delay_arg max_delay) of
              Inl e \<Rightarrow> Inl e
            | Inr syn \<Rightarrow>
                (case new_tensor [size] of
                   Inl e \<Rightarrow> Inl e
                 | Inr w \<Rightarrow>
                     (case optional_tensor (\<not> bias) [size] of
                        Inl e \<Rightarrow> Inl e
                      | Inr b \<Rightarrow>
                          (case optional_tensor (not_delay max_delay) [size] of
                             Inl e \<Rightarrow> Inl e
                           | Inr d \<Rightarrow>
                               Inr \<lparr>synapse = syn, weight_shape = w, bias_shape = b,
                                    delay_shape = d, in_shape = shp,
                                    out_shape = shp\<rparr>)))))"

definition LateralLinear_init ::
  "int list \<Rightarrow> real \<Rightarrow> 'syn SynapseConstructor \<Rightarrow> int \<Rightarrow> bool \<Rightarrow> real option
     \<Rightarrow> error + 'syn Connection" where
  "LateralLinear_init shp step_time syn_ctor batch bias max_delay =
     (let size = prod_list shp in
      if step_time \<le> 0 then Inl ValueError
      else if (case max_delay of None \<Rightarrow> False | Some d \<Rightarrow> d \<le> 0) then Inl ValueError
      else (case syn_ctor (PInt size) (PFloat step_time) (PInt batch) (delay_arg max_delay) of
              Inl e \<Rightarrow> Inl e
            | Inr syn \<Rightarrow>
                (case new_tensor [size, size] of
                   Inl e \<Rightarrow> Inl e
                 | Inr w \<Rightarrow>
                     (case new_tensor [size, size] of
                        Inl e \<Rightarrow> Inl e
                      | Inr eye \<Rightarrow>
                          (case optional_tensor (\<not> bias) [size, 1] of
                             Inl e \<Rightarrow> Inl e
                           | Inr b \<Rightarrow>
                               (case optional_tensor (not_delay max_delay) [size, size] of
                                  Inl e \<Rightarrow> Inl e
                                | Inr d \<Rightarrow>
                                    Inr \<lparr>synapse = syn, weight_shape = w, bias_shape = b,
                                         delay_shape = d, in_shape = shp,
                                         out_shape = shp\<rparr>))))))"

section \<open>Smoothing: results\<close>

lemma exponential_smoothing_keyword:
  "exponential_smoothing [Some x, Some l] (Some a) = Inr (Some (a * x + (1 - a) * l))"
  by (simp add: exponential_smoothing_def)

lemma exponential_smoothing_initial:
  "exponential_smoothing [Some x, None] (Some a) = Inr (Some x)"
  by (simp add: exponential_smoothing_def)

lemma holt_linear_smoothing_initial:
  "holt_linear_smoothing obs None trend alpha beta = Inr (obs, None)"
  by (simp add: holt_linear_smoothing_def)

text \<open>
  C2. The claim promises that with a level given, \<open>holt_linear_smoothing\<close> returns the
  textbook Holt update without raising. In the source the inner call
  \<^verbatim>\<open>exponential_smoothing(obs, level + trend, alpha)\<close> gives three positional arguments to
  a function that takes two and a keyword-only \<open>alpha\<close>: for every observation, every
  given level, every trend (given or \<open>None\<close>) and all smoothing factors the call raises
  \<open>TypeError\<close>, and so does \<open>holt_linear_smoothing\<close>.
\<close>

theorem holt_linear_smoothing_raises:
  "holt_linear_smoothing obs (Some level) trend alpha beta = Inl TypeError"
  by (simp add: holt_linear_smoothing_def exponential_smoothing_def Let_def)

section \<open>Inter-spike intervals: results\<close>

lemma trains_concat:
  "\<forall>r \<in> set rows. length r = t \<Longrightarrow> trains (length rows) t (concat rows) = rows"
proof (induction rows)
  case Nil
  then show ?case by (simp add: trains_def)
next
  case (Cons r rows)
  have "trains (Suc (length rows)) t (r @ concat rows)
        = take t (r @ concat rows) # map (\<lambda>i. take t (drop (Suc i * t) (r @ concat rows))) [0..<length rows]"
    unfolding trains_def by (simp add: upt_rec[of 0] map_Suc_upt[symmetric] del: upt_Suc)
  also have "\<dots> = r # trains (length rows) t (concat rows)"
    using Cons.prems by (simp add: trains_def)
  finally show ?case using Cons by simp
qed

lemma trains_Suc:
  "trains (Suc b) t xs = take t xs # trains b t (drop t xs)"
proof -
  have "map (\<lambda>i. take t (drop (i * t) xs)) [0..<Suc b]
        = take t xs # map (\<lambda>i. take t (drop (Suc i * t) xs)) [0..<b]"
    by (simp add: upt_rec[of 0] map_Suc_upt[symmetric] del: upt_Suc)
  then show ?thesis
    by (simp add: trains_def add.commute)
qed

lemma concat_trains: "length xs = b * t \<Longrightarrow> concat (trains b t xs) = xs"
proof (induction b arbitrary: xs)
  case 0
  then show ?case by (simp add: trains_def)
next
  case (Suc b)
  then have "concat (trains b t (drop t xs)) = drop t xs" by simp
  then show ?case by (simp add: trains_Suc)
qed

lemma length_trains: "length (trains b t xs) = b"
  by (simp add: trains_def)

lemma length_train:
  "length xs = b * t \<Longrightarrow> r \<in> set (trains b t xs) \<Longrightarrow> length r = t"
proof (induction b arbitrary: xs)
  case 0
  then show ?case by (simp add: trains_def)
next
  case (Suc b)
  have "length (drop t xs) = b * t" using Suc.prems(1) by simp
  from Suc.IH[OF this] show ?case using Suc.prems by (auto simp: trains_Suc)
qed

lemma nonzero_from_append:
  "nonzero_from k (xs @ ys) = nonzero_from k xs @ nonzero_from (k + length xs) ys"
  by (induction xs arbitrary: k) auto

lemma nonzero_from_shift:
  "nonzero_from (k + m) xs = map (\<lambda>i. i + m) (nonzero_from k xs)"
proof (induction xs arbitrary: k)
  case Nil
  then show ?case by simp
next
  case (Cons x xs)
  from Cons[of "Suc k"] show ?case by simp
qed

lemma nonzero_from_bound:
  "i \<in> set (nonzero_from k xs) \<Longrightarrow> k \<le> i \<and> i < k + length xs"
  by (induction xs arbitrary: k) (fastforce split: if_splits)+

lemma nonzero_Cons_True: "nonzero (True # r) = 0 # map Suc (nonzero r)"
  using nonzero_from_shift[of 0 1 r] by (simp add: nonzero_def)

lemma nonzero_last_rows:
  assumes "\<forall>r \<in> set rows. length r = n" "0 < n"
  shows "map (\<lambda>i. i mod n) (nonzero_from (k * n) (concat rows)) = concat (map nonzero rows)"
  using assms(1)
proof (induction rows arbitrary: k)
  case Nil
  then show ?case by simp
next
  case (Cons r rows)
  have len: "length r = n" using Cons.prems by simp
  have "map (\<lambda>i. i mod n) (nonzero_from (k * n) r) = nonzero r"
  proof -
    have "nonzero_from (k * n) r = map (\<lambda>i. i + k * n) (nonzero_from 0 r)"
      using nonzero_from_shift[of 0 "k * n" r] by simp
    moreover have "\<forall>i \<in> set (nonzero_from 0 r). (i + k * n) mod n = i"
      using nonzero_from_bound[of _ 0 r] len by auto
    ultimately show ?thesis
      by (simp add: nonzero_def map_idI)
  qed
  moreover have "map (\<lambda>i. i mod n) (nonzero_from (k * n + n) (concat rows)) = concat (map nonzero rows)"
    using Cons.IH[of "Suc k"] Cons.prems by (simp add: add.commute)
  ultimately show ?case
    by (simp add: nonzero_from_append len)
qed

lemma nonzero_from_no_zero:
  "nonzero_from k (map ((\<lambda>i. i = 0) \<circ> Suc) ps) = []"
  by (induction ps arbitrary: k) auto

lemma nonzero_from_segments:
  "nonzero_from k (map (\<lambda>i. i = 0) (concat (map (\<lambda>ps. 0 # map Suc ps) pss)))
   = offsets k (map (\<lambda>ps. 0 # map Suc ps) pss)"
proof (induction pss arbitrary: k)
  case Nil
  then show ?case by simp
next
  case (Cons ps pss)
  show ?case
    using Cons[of "Suc (k + length ps)"]
    by (simp add: nonzero_from_append nonzero_from_no_zero)
qed

lemma tensor_split_from_offsets:
  "length pre = k \<Longrightarrow>
   tensor_split_from k (pre @ s @ concat ss) (offsets (k + length s) ss) = s # ss"
proof (induction ss arbitrary: pre k s)
  case Nil
  then show ?case by simp
next
  case (Cons s2 ss)
  have "tensor_split_from (k + length s) ((pre @ s) @ s2 @ concat ss)
          (offsets (k + length s + length s2) ss) = s2 # ss"
    using Cons.IH[of "pre @ s" "k + length s" s2] Cons.prems by simp
  then show ?case using Cons.prems by simp
qed

lemma tensor_split_segments:
  "segs \<noteq> [] \<Longrightarrow> tensor_split (concat segs) (tl (offsets 0 segs)) = segs"
proof (cases segs)
  case Nil
  then show "segs \<noteq> [] \<Longrightarrow> ?thesis" by simp
next
  case (Cons s ss)
  then show ?thesis
    using tensor_split_from_offsets[of "[]" 0 s ss] by (simp add: tensor_split_def)
qed

lemma offsets_map: "offsets k (map (map f) segs) = offsets k segs"
  by (induction segs arbitrary: k) auto

lemma diff_simps:
  "diff [] = []" "diff [x] = []" "diff (x # y # ys) = fsub y x # diff (y # ys)"
  by (simp_all add: diff_def)

lemma diff_replicate_NaN: "diff (replicate k NaN) = replicate (k - 1) NaN"
proof (induction k)
  case 0
  then show ?case by (simp add: diff_simps)
next
  case (Suc k)
  then show ?case by (cases k) (simp_all add: diff_simps)
qed

lemma diff_Val_pad:
  "xs \<noteq> [] \<Longrightarrow>
   diff (map Val xs @ replicate k NaN) =
   map Val (map (\<lambda>(a, b). b - a) (zip xs (tl xs))) @ replicate k NaN"
proof (induction xs rule: list_nonempty_induct)
  case (single x)
  show ?case
  proof (cases k)
    case 0
    then show ?thesis by (simp add: diff_simps)
  next
    case (Suc j)
    have "diff (Val x # NaN # replicate j NaN) = NaN # diff (replicate (Suc j) NaN)"
      by (simp add: diff_simps)
    also have "\<dots> = NaN # replicate j NaN"
      by (simp only: diff_replicate_NaN diff_Suc_1)
    finally show ?thesis using Suc by simp
  qed
next
  case (cons x xs)
  then obtain y ys where xs: "xs = y # ys" by (cases xs) auto
  show ?case using cons.IH by (simp add: xs diff_simps)
qed

lemma diff_times_pad:
  "diff (map (\<lambda>p. Val (real p * st)) ps @ replicate (c - length ps) NaN) =
   map Val (intervals st ps) @ replicate ((c - 1) - (length ps - 1)) NaN"
proof (cases ps)
  case Nil
  then show ?thesis by (simp add: diff_replicate_NaN intervals_def)
next
  case (Cons p qs)
  have "map (\<lambda>p. Val (real p * st)) ps = map Val (map (\<lambda>p. real p * st) ps)"
    by simp
  moreover have "map (\<lambda>(a, b). b - a) (zip (map (\<lambda>p. real p * st) ps) (tl (map (\<lambda>p. real p * st) ps)))
     = intervals st ps"
    by (simp add: intervals_def zip_map_map map_tl[symmetric] split_def)
  moreover have "c - length ps = (c - 1) - (length ps - 1)" using Cons by simp
  ultimately show ?thesis
    using diff_Val_pad[of "map (\<lambda>p. real p * st) ps" "c - length ps"] Cons
    by (simp add: comp_def)
qed

lemma max_list_ge: "x \<in> set xs \<Longrightarrow> x \<le> max_list xs"
  by (induction xs) auto

lemma max_list_Suc: "xs \<noteq> [] \<Longrightarrow> max_list (map Suc xs) = Suc (max_list xs)"
  by (induction xs rule: list_nonempty_induct) auto

lemma length_intervals: "length (intervals st ps) = length ps - 1"
  by (simp add: intervals_def)

lemma length_isi_row:
  "length (nonzero r) \<le> c \<Longrightarrow> length (isi_row c st r) = c - 1"
  by (simp add: isi_row_def length_intervals)

lemma length_concat_const:
  "\<forall>x \<in> set xs. length (f x) = n \<Longrightarrow> length (concat (map f xs)) = length xs * n"
  by (induction xs) auto

lemma pad_front_rows:
  assumes "\<forall>r \<in> set rows. length r = t" "length rows = prod_list lead"
  shows "pad_front (Tensor (lead @ [t]) (concat rows)) =
         Inr (Tensor (lead @ [Suc t]) (concat (map (\<lambda>r. True # r) rows)))"
proof -
  have "trains (prod_list lead) t (concat rows) = rows"
    using trains_concat[OF assms(1)] assms(2) by simp
  moreover have "(case lead @ [t] of [] \<Rightarrow> a | _ \<Rightarrow> b) = b" for a b :: "error + bool tensor"
    by (cases lead) simp_all
  ultimately show ?thesis
    by (simp add: pad_front_def)
qed

lemma nonzero_last_padded:
  assumes "\<forall>r \<in> set rows. length r = t"
  shows "nonzero_last (Tensor (lead @ [Suc t]) (concat (map (\<lambda>r. True # r) rows))) =
         concat (map (\<lambda>ps. 0 # map Suc ps) (map nonzero rows))"
proof -
  have "\<forall>r \<in> set (map (\<lambda>r. True # r) rows). length r = Suc t"
    using assms by simp
  from nonzero_last_rows[OF this, of 0]
  have "map (\<lambda>i. i mod Suc t) (nonzero (concat (map (\<lambda>r. True # r) rows))) =
        concat (map nonzero (map (\<lambda>r. True # r) rows))"
    by (simp add: nonzero_def)
  then show ?thesis
    by (simp add: nonzero_last_def comp_def nonzero_Cons_True)
qed

lemma isi_pieces:
  assumes "pss \<noteq> []"
  shows "tensor_split
           (map (\<lambda>i. (real i - 1) * st) (concat (map (\<lambda>ps. 0 # map Suc ps) pss)))
           (tl (nonzero (map (\<lambda>i. i = 0) (concat (map (\<lambda>ps. 0 # map Suc ps) pss)))))
         = map (\<lambda>ps. (- st) # map (\<lambda>p. real p * st) ps) pss"
proof -
  let ?segs = "map (\<lambda>ps. 0 # map Suc ps) pss"
  let ?f = "\<lambda>i. (real i - 1) * st"
  have "tl (nonzero (map (\<lambda>i. i = 0) (concat ?segs))) = tl (offsets 0 (map (map ?f) ?segs))"
    by (simp only: nonzero_def nonzero_from_segments offsets_map)
  moreover have "map ?f (concat ?segs) = concat (map (map ?f) ?segs)"
    by (simp add: map_concat)
  moreover have "map (map ?f) ?segs \<noteq> []" using assms by simp
  ultimately have "tensor_split (map ?f (concat ?segs))
      (tl (nonzero (map (\<lambda>i. i = 0) (concat ?segs)))) = map (map ?f) ?segs"
    using tensor_split_segments[of "map (map ?f) ?segs"] by simp
  also have "\<dots> = map (\<lambda>ps. (- st) # map (\<lambda>p. real p * st) ps) pss"
    by (simp add: comp_def)
  finally show ?thesis .
qed

lemma pad_sequence_pieces:
  assumes "pss \<noteq> []"
  shows "pad_sequence (map (\<lambda>ps. (- st) # map (\<lambda>p. real p * st) ps) pss) =
         Inr (map (\<lambda>ps. Val (- st) # map (\<lambda>p. Val (real p * st)) ps @
                     replicate (max_list (map length pss) - length ps) NaN) pss)"
proof -
  have "map length (map (\<lambda>ps. (- st) # map (\<lambda>p. real p * st) ps) pss)
        = map Suc (map length pss)"
    by simp
  then have "max_list (map length (map (\<lambda>ps. (- st) # map (\<lambda>p. real p * st) ps) pss))
        = Suc (max_list (map length pss))"
    using assms by (simp only: max_list_Suc[of "map length pss"] map_is_Nil_conv not_False_eq_True)
  then show ?thesis
    using assms by (simp add: pad_sequence_def comp_def)
qed

lemma view_last_rows:
  assumes "0 < prod_list lead" "length xs = prod_list lead * n"
  shows "view_last lead xs = Inr (Tensor (lead @ [n]) xs)"
  using assms by (simp add: view_last_def)

lemma isi_rows:
  assumes rows: "\<forall>r \<in> set rows. length r = t"
    and lead: "length rows = prod_list lead"
    and ne: "rows \<noteq> []"
  shows "isi (Tensor (lead @ [t]) (concat rows)) step_time False =
         Inr (Tensor (lead @ [max_list (map (\<lambda>r. length (nonzero r)) rows) - 1])
                (concat (map (isi_row (max_list (map (\<lambda>r. length (nonzero r)) rows))
                                (case step_time of None \<Rightarrow> 1 | Some s \<Rightarrow> s)) rows)))"
proof -
  let ?c = "max_list (map (\<lambda>r. length (nonzero r)) rows)"
  let ?st = "case step_time of None \<Rightarrow> 1 | Some s \<Rightarrow> s"
  let ?pss = "map nonzero rows"
  have pss: "?pss \<noteq> []" using ne by simp
  have c: "max_list (map length ?pss) = ?c" by (simp add: comp_def)
  have rowwise: "map diff (map (drop 1)
          (map (\<lambda>ps. Val (- ?st) # map (\<lambda>p. Val (real p * ?st)) ps @
                     replicate (?c - length ps) NaN) ?pss))
        = map (isi_row ?c ?st) rows"
    by (simp add: comp_def diff_times_pad isi_row_def)
  have len: "length (concat (map (isi_row ?c ?st) rows)) = prod_list lead * (?c - 1)"
  proof -
    have "\<forall>r \<in> set rows. length (isi_row ?c ?st r) = ?c - 1"
    proof
      fix r assume "r \<in> set rows"
      then have "length (nonzero r) \<in> set (map (\<lambda>r. length (nonzero r)) rows)" by simp
      then have "length (nonzero r) \<le> ?c" by (rule max_list_ge)
      then show "length (isi_row ?c ?st r) = ?c - 1" by (rule length_isi_row)
    qed
    from length_concat_const[OF this] show ?thesis using lead by simp
  qed
  have pos: "0 < prod_list lead" using ne lead by (cases rows) auto
  show ?thesis
    unfolding isi_def
    by (simp only: if_False sum.case pad_front_rows[OF rows lead] Let_def
          nonzero_last_padded[OF rows] isi_pieces[OF pss] pad_sequence_pieces[OF pss] c
          rowwise tensor.sel butlast_snoc view_last_rows[OF pos len])
qed

lemma set_nonzero_from:
  "set (nonzero_from k xs) = {k + i | i. i < length xs \<and> xs ! i}"
proof (induction xs arbitrary: k)
  case Nil
  then show ?case by simp
next
  case (Cons x xs)
  have "{k + i | i. i < Suc (length xs) \<and> (x # xs) ! i}
        = (if x then {k} else {}) \<union> {Suc k + i | i. i < length xs \<and> xs ! i}"
  proof (rule set_eqI)
    fix j
    show "j \<in> {k + i | i. i < Suc (length xs) \<and> (x # xs) ! i}
          \<longleftrightarrow> j \<in> (if x then {k} else {}) \<union> {Suc k + i | i. i < length xs \<and> xs ! i}"
    proof
      assume "j \<in> {k + i | i. i < Suc (length xs) \<and> (x # xs) ! i}"
      then obtain i where i: "j = k + i" "i < Suc (length xs)" "(x # xs) ! i" by blast
      show "j \<in> (if x then {k} else {}) \<union> {Suc k + i | i. i < length xs \<and> xs ! i}"
      proof (cases i)
        case 0
        then show ?thesis using i by simp
      next
        case (Suc m)
        then have "j = Suc k + m" "m < length xs" "xs ! m" using i by simp_all
        then show ?thesis by blast
      qed
    next
      assume "j \<in> (if x then {k} else {}) \<union> {Suc k + i | i. i < length xs \<and> xs ! i}"
      then consider "x" "j = k" | m where "j = Suc k + m" "m < length xs" "xs ! m"
        by (auto split: if_splits)
      then show "j \<in> {k + i | i. i < Suc (length xs) \<and> (x # xs) ! i}"
      proof cases
        case 1
        then have "j = k + 0 \<and> 0 < Suc (length xs) \<and> (x # xs) ! 0" by simp
        then show ?thesis by blast
      next
        case 2
        then have "j = k + Suc m \<and> Suc m < Suc (length xs) \<and> (x # xs) ! Suc m" by simp
        then show ?thesis by blast
      qed
    qed
  qed
  then show ?case using Cons[of "Suc k"] by auto
qed

lemma set_nonzero: "set (nonzero xs) = {i. i < length xs \<and> xs ! i}"
  by (simp add: nonzero_def set_nonzero_from)

lemma sorted_nonzero_from: "sorted_wrt (<) (nonzero_from k xs)"
proof (induction xs arbitrary: k)
  case Nil
  then show ?case by simp
next
  case (Cons x xs)
  have "\<forall>i \<in> set (nonzero_from (Suc k) xs). k < i"
    using nonzero_from_bound[of _ "Suc k" xs] by fastforce
  then show ?case using Cons[of "Suc k"] by simp
qed

lemma nonzero_eqI:
  assumes "{i. i < length xs \<and> xs ! i} = set ps" "sorted_wrt (<) ps"
  shows "nonzero xs = ps"
proof -
  have "sorted_wrt (<) (nonzero xs)" by (simp add: nonzero_def sorted_nonzero_from)
  moreover have "set (nonzero xs) = set ps" using assms(1) by (simp add: set_nonzero)
  ultimately show ?thesis
    using assms(2) by (simp add: strict_sorted_equal)
qed

lemma isi_row_259: "isi_row 3 st r = [Val (3 * st), Val (4 * st)]" if "nonzero r = [2, 5, 9]"
  using that by (simp add: isi_row_def intervals_def algebra_simps)

text \<open>
  C4. A train whose spikes are exactly at the steps 2, 5 and 9 (of any length that holds
  them) gives the intervals 3 and 4 when \<open>step_time\<close> is \<open>None\<close>, and \<open>3 * step_time\<close> and
  \<open>4 * step_time\<close> when a step time is given. For a batch of one or more trains of equal
  length, the result has one row per train and \<open>c - 1\<close> columns, \<open>c\<close> the largest number
  of spikes of a train: every row holds the intervals of its train (\<open>isi_row\<close>), scaled by
  the step time, followed by \<open>NaN\<close> in the trailing positions a train with fewer spikes
  leaves free.
\<close>

theorem isi_intervals:
  assumes spikes: "{i. i < length xs \<and> xs ! i} = {2, 5, 9}"
    and rows: "\<forall>r \<in> set rows. length r = t"
    and lead: "length rows = prod_list lead"
    and ne: "rows \<noteq> []"
  shows "isi (Tensor [length xs] xs) None False = Inr (Tensor [2] [Val 3, Val 4])
       \<and> isi (Tensor [length xs] xs) (Some st) False
           = Inr (Tensor [2] [Val (3 * st), Val (4 * st)])
       \<and> isi (Tensor (lead @ [t]) (concat rows)) step_time False
           = Inr (Tensor (lead @ [max_list (map (\<lambda>r. length (nonzero r)) rows) - 1])
               (concat (map (isi_row (max_list (map (\<lambda>r. length (nonzero r)) rows))
                               (case step_time of None \<Rightarrow> 1 | Some s \<Rightarrow> s)) rows)))"
proof -
  have nz: "nonzero xs = [2, 5, 9]"
    using spikes by (intro nonzero_eqI) simp_all
  have one: "isi (Tensor [length xs] xs) step False =
        Inr (Tensor [2] (isi_row 3 (case step of None \<Rightarrow> 1 | Some s \<Rightarrow> s) xs))" for step
    using isi_rows[of "[xs]" "length xs" "[]" step] by (simp add: nz eval_nat_numeral)
  show ?thesis
    using one[of None] one[of "Some st"] isi_rows[OF rows lead ne, of step_time]
    by (simp add: isi_row_259[OF nz])
qed

theorem isi_intervals_witness:
  "isi (Tensor [10] [False, False, True, False, False, True, False, False, False, True])
       None False = Inr (Tensor [2] [Val 3, Val 4])
   \<and> isi (Tensor [10] [False, False, True, False, False, True, False, False, False, True])
       (Some (1 / 2)) False = Inr (Tensor [2] [Val (3 / 2), Val 2])
   \<and> isi (Tensor [2, 4] [False, True, True, True, True, False, False, True])
       None False = Inr (Tensor [2, 2] [Val 1, Val 1, Val 3, NaN])"
proof -
  let ?xs = "[False, False, True, False, False, True, False, False, False, True]"
  let ?rows = "[[False, True, True, True], [True, False, False, True]]"
  have nz: "nonzero ?xs = [2, 5, 9]" by (simp add: nonzero_def)
  have h1: "{i. i < length ?xs \<and> ?xs ! i} = {2, 5, 9}"
    unfolding set_nonzero[symmetric] nz by simp
  have h2: "\<forall>r \<in> set ?rows. length r = 4" by simp
  have h3: "length ?rows = prod_list [2]" by simp
  have h4: "?rows \<noteq> []" by simp
  show ?thesis
    using isi_intervals[OF h1 h2 h3 h4, of "1 / 2" None]
    by (simp add: isi_row_def intervals_def nonzero_def eval_nat_numeral)
qed

text \<open>
  When the tensor has at least one train and no train has two or more spikes, the result
  has a last dimension of size zero and the leading dimensions of the input.
\<close>

lemma isi_no_intervals:
  assumes rows: "\<forall>r \<in> set rows. length r = t"
    and lead: "length rows = prod_list lead"
    and ne: "rows \<noteq> []"
    and few: "\<forall>r \<in> set rows. length (nonzero r) \<le> 1"
  shows "isi (Tensor (lead @ [t]) (concat rows)) step_time False = Inr (Tensor (lead @ [0]) [])"
proof -
  let ?c = "max_list (map (\<lambda>r. length (nonzero r)) rows)"
  have "?c \<le> 1" using few by (induction rows) auto
  then have c: "?c - 1 = 0" by simp
  have "\<forall>r \<in> set rows. isi_row ?c st r = []" for st
  proof
    fix r assume "r \<in> set rows"
    then have "length (nonzero r) \<le> 1" using few by simp
    then have "nonzero r = [] \<or> tl (nonzero r) = []"
      by (cases "nonzero r") auto
    then show "isi_row ?c st r = []"
      using c by (auto simp add: isi_row_def intervals_def)
  qed
  then have "concat (map (isi_row ?c st) rows) = []" for st by simp
  then show ?thesis
    using isi_rows[OF rows lead ne, of step_time] c by simp
qed

text \<open>
  The same for a tensor given by its shape and elements: every well-formed tensor with
  at least one train is the concatenation of its trains.
\<close>

lemma isi_no_intervals_tensor:
  assumes wf: "wf_tensor x" and sh: "shape x = lead @ [t]"
    and pos: "0 < prod_list lead"
    and few: "\<forall>r \<in> set (trains (prod_list lead) t (data x)). length (nonzero r) \<le> 1"
  shows "isi x step_time False = Inr (Tensor (lead @ [0]) [])"
proof -
  let ?rows = "trains (prod_list lead) t (data x)"
  have len: "length (data x) = prod_list lead * t"
    using wf sh by (simp add: wf_tensor_def)
  have x: "x = Tensor (lead @ [t]) (concat ?rows)"
    using sh concat_trains[OF len] by (cases x) simp
  have rows: "\<forall>r \<in> set ?rows. length r = t"
    using length_train[OF len] by blast
  have ne: "?rows \<noteq> []" using pos length_trains[of "prod_list lead" t "data x"] by auto
  show ?thesis
    using isi_no_intervals[OF rows _ ne few, of lead step_time] x
    by (simp add: length_trains)
qed

text \<open>
  C10. The claim promises a result with a last dimension of size zero, and no error, for
  every spike tensor in which no train has two spikes. A tensor of shape \<open>(0, 3)\<close> has no
  train at all, so none with two spikes; there \<open>intervals.view(0, -1)\<close> is asked to infer
  a size for zero elements after a zero dimension, which torch refuses, and \<open>isi\<close> raises.
\<close>

theorem isi_empty_batch_raises: "isi (Tensor [0, 3] []) None False = Inl RuntimeError"
  by (simp add: isi_def pad_front_def trains_def nonzero_last_def nonzero_def
      tensor_split_def pad_sequence_def diff_def view_last_def)

section \<open>Synapses: results\<close>

subsection \<open>Histories\<close>

lemma peek_write_obs: "slots h \<noteq> [] \<Longrightarrow> peek (write_obs h v) = v"
  by (simp add: peek_def at_age_def write_obs_def)

lemma resting_reset: "resting rest (reset h rest)"
  by (simp add: resting_def reset_def list_all_iff)

lemma resting_write_obs:
  "resting rest h \<Longrightarrow> list_all (\<lambda>x. x = rest) v \<Longrightarrow> resting rest (write_obs h v)"
  by (auto simp: resting_def write_obs_def list_all_iff dest!: set_update_subset_insert[THEN subsetD])

lemma length_slots_reset: "length (slots (reset h rest)) = length (slots h)"
  by (simp add: reset_def)

text \<open>
  C8. For every \<open>DeltaCurrent\<close> and every \<open>DeltaPlusCurrent\<close>, \<open>clear\<close> leaves the spike
  history (and, for \<open>DeltaPlusCurrent\<close>, the current history) at the resting values \<open>False\<close>
  and \<open>0\<close> in every slot, and leaves the charge per spike \<open>spike_q\<close>, the configured
  maximum delay and the capacity of the histories as they were.
\<close>

theorem clear_resets_histories_only:
  "resting False (spike_hist (DeltaCurrent_clear s))
   \<and> spike_q (DeltaCurrent_clear s) = spike_q s
   \<and> delay (DeltaCurrent_clear s) = delay s
   \<and> length (slots (spike_hist (DeltaCurrent_clear s))) = length (slots (spike_hist s))
   \<and> resting False (spike_hist (DeltaPlusCurrent_clear p))
   \<and> resting 0 (current_hist (DeltaPlusCurrent_clear p))
   \<and> spike_q (DeltaPlusCurrent_clear p) = spike_q p
   \<and> delay (DeltaPlusCurrent_clear p) = delay p
   \<and> length (slots (spike_hist (DeltaPlusCurrent_clear p))) = length (slots (spike_hist p))
   \<and> length (slots (current_hist (DeltaPlusCurrent_clear p))) = length (slots (current_hist p))"
  by (simp add: DeltaCurrent_clear_def DeltaPlusCurrent_clear_def resting_reset length_slots_reset)

subsection \<open>Construction\<close>

lemma lower_examples:
  "lower ''NEAREST'' = ''nearest''" "lower ''Previous'' = ''previous''"
  "lower ''linear'' = ''linear''" "lower ''previous'' = ''previous''"
  by (simp_all add: lower_def lower_char_def)

lemma match_interp_mode_error:
  "lower m \<noteq> ''nearest'' \<Longrightarrow> lower m \<noteq> ''previous'' \<Longrightarrow>
   match_interp_mode m = Inl RuntimeError"
  by (simp add: match_interp_mode_def)

lemma match_interp_mode_ok:
  "lower m = ''nearest'' \<or> lower m = ''previous'' \<Longrightarrow> \<exists>i. match_interp_mode m = Inr i"
  by (auto simp add: match_interp_mode_def)

text \<open>
  C5, as amended. A \<open>DeltaCurrent\<close> or \<open>DeltaPlusCurrent\<close> whose \<open>interp_mode\<close>, put in
  lower case, is neither \<open>nearest\<close> nor \<open>previous\<close> is never constructed; when the other
  arguments are valid (positive step time, delay not negative, batch size at least one,
  charge not zero) the error is the \<open>RuntimeError\<close> of the \<open>match\<close> statement.
\<close>

theorem unknown_interp_mode_rejected:
  assumes "lower (kw_interp_mode k) \<noteq> ''nearest''"
    and "lower (kw_interp_mode k) \<noteq> ''previous''"
  shows "isl (DeltaCurrent_init k) \<and> isl (DeltaPlusCurrent_init k)
       \<and> (0 < kw_step_time k \<and> 0 \<le> kw_delay k \<and> 1 \<le> kw_batch_size k \<and> kw_spike_q k \<noteq> 0
            \<longrightarrow> DeltaCurrent_init k = Inl RuntimeError
              \<and> DeltaPlusCurrent_init k = Inl RuntimeError)"
  using match_interp_mode_error[OF assms]
  by (simp add: DeltaCurrent_init_def DeltaPlusCurrent_init_def InfernoSynapse_init_def
      argtest_neq_def split: sum.splits)

text \<open>The mode \<open>linear\<close> with otherwise default arguments.\<close>

theorem unknown_interp_mode_rejected_witness:
  "DeltaCurrent_init ((defaults [1] 1 1)\<lparr>kw_interp_mode := ''linear''\<rparr>) = Inl RuntimeError
   \<and> DeltaPlusCurrent_init ((defaults [1] 1 1)\<lparr>kw_interp_mode := ''linear''\<rparr>)
       = Inl RuntimeError"
  using unknown_interp_mode_rejected[of "(defaults [1] 1 1)\<lparr>kw_interp_mode := ''linear''\<rparr>"]
  by (simp add: defaults_def lower_def lower_char_def)

text \<open>
  The claim as stated fails: \<open>NEAREST\<close> and \<open>Previous\<close> are other strings than \<open>nearest\<close> and
  \<open>previous\<close> and are accepted, because the mode is compared in lower case; and the error
  for \<open>linear\<close> is not a \<open>ConfigurationError\<close>.
\<close>

theorem interp_mode_counterexample:
  "\<not> isl (DeltaCurrent_init ((defaults [1] 1 1)\<lparr>kw_interp_mode := ''NEAREST''\<rparr>))
   \<and> \<not> isl (DeltaPlusCurrent_init ((defaults [1] 1 1)\<lparr>kw_interp_mode := ''Previous''\<rparr>))
   \<and> DeltaCurrent_init ((defaults [1] 1 1)\<lparr>kw_interp_mode := ''linear''\<rparr>)
       \<noteq> Inl ConfigurationError"
  by (simp add: DeltaCurrent_init_def DeltaPlusCurrent_init_def InfernoSynapse_init_def
      argtest_neq_def match_interp_mode_def defaults_def lower_def lower_char_def)

text \<open>
  C7. With \<open>spike_q = 0\<close> the construction of a \<open>DeltaCurrent\<close> or \<open>DeltaPlusCurrent\<close>
  fails with a \<open>ConfigurationError\<close>, whatever the other arguments are. Every other
  \<open>spike_q\<close> is accepted: with valid other arguments the synapse is constructed and holds
  that charge.
\<close>

theorem spike_q_nonzero:
  "(kw_spike_q k = 0 \<longrightarrow>
      DeltaCurrent_init k = Inl ConfigurationError
      \<and> DeltaPlusCurrent_init k = Inl ConfigurationError)
   \<and> (kw_spike_q k \<noteq> 0 \<and> 0 < kw_step_time k \<and> 0 \<le> kw_delay k \<and> 1 \<le> kw_batch_size k
        \<and> (lower (kw_interp_mode k) = ''nearest'' \<or> lower (kw_interp_mode k) = ''previous'')
      \<longrightarrow> (\<exists>s. DeltaCurrent_init k = Inr s \<and> spike_q s = kw_spike_q k)
        \<and> (\<exists>p. DeltaPlusCurrent_init k = Inr p \<and> spike_q p = kw_spike_q k))"
proof (intro conjI impI)
  assume "kw_spike_q k = 0"
  then show "DeltaCurrent_init k = Inl ConfigurationError"
    by (simp add: DeltaCurrent_init_def InfernoSynapse_init_def argtest_neq_def)
next
  assume "kw_spike_q k = 0"
  then show "DeltaPlusCurrent_init k = Inl ConfigurationError"
    by (simp add: DeltaPlusCurrent_init_def InfernoSynapse_init_def argtest_neq_def)
next
  assume a: "kw_spike_q k \<noteq> 0 \<and> 0 < kw_step_time k \<and> 0 \<le> kw_delay k \<and> 1 \<le> kw_batch_size k
        \<and> (lower (kw_interp_mode k) = ''nearest'' \<or> lower (kw_interp_mode k) = ''previous'')"
  then obtain i where i: "match_interp_mode (kw_interp_mode k) = Inr i"
    using match_interp_mode_ok by blast
  show "\<exists>s. DeltaCurrent_init k = Inr s \<and> spike_q s = kw_spike_q k"
    using a i by (simp add: DeltaCurrent_init_def InfernoSynapse_init_def argtest_neq_def)
  show "\<exists>p. DeltaPlusCurrent_init k = Inr p \<and> spike_q p = kw_spike_q k"
    using a i by (simp add: DeltaPlusCurrent_init_def InfernoSynapse_init_def argtest_neq_def)
qed

text \<open>The charges 0 and -2 with otherwise default arguments.\<close>

theorem spike_q_nonzero_witness:
  "DeltaCurrent_init (defaults [1] 1 0) = Inl ConfigurationError
   \<and> DeltaPlusCurrent_init (defaults [1] 1 0) = Inl ConfigurationError
   \<and> (\<exists>s. DeltaCurrent_init (defaults [1] 1 (-2)) = Inr s \<and> spike_q s = -2)
   \<and> (\<exists>p. DeltaPlusCurrent_init (defaults [1] 1 (-2)) = Inr p \<and> spike_q p = -2)"
  using spike_q_nonzero[of "defaults [1] 1 0"] spike_q_nonzero[of "defaults [1] 1 (-2)"]
  by (simp add: defaults_def lower_def lower_char_def)

subsection \<open>The invariant, \<open>clear\<close> and \<open>forward\<close>\<close>

lemma units_update [simp]:
  "units (s\<lparr>spike_hist := h\<rparr>) = units s"
  by (simp add: units_def)

lemma units_update_current [simp]:
  "units (p\<lparr>current_hist := h\<rparr>) = units p"
  by (simp add: units_def)

lemma wf_history_reset: "wf_history n h \<Longrightarrow> wf_history n (reset h rest)"
  by (simp add: wf_history_def reset_def list_all_iff)

lemma wf_history_write_obs:
  "wf_history n h \<Longrightarrow> length v = n \<Longrightarrow> wf_history n (write_obs h v)"
  by (auto simp: wf_history_def write_obs_def list_all_iff
      dest!: set_update_subset_insert[THEN subsetD])

lemma length_slots_write_obs: "length (slots (write_obs h v)) = length (slots h)"
  by (simp add: write_obs_def)

lemma wf_history_new: "wf_history (length init) (new_history (capacity d st) init)"
  by (simp add: wf_history_def new_history_def capacity_def list_all_iff)

lemma wf_history_new_replicate:
  "wf_history n (new_history (capacity d st) (replicate n v))"
  using wf_history_new[of "replicate n v" d st] by simp

lemma valid_clear: "valid s \<Longrightarrow> valid (DeltaCurrent_clear s)"
  by (simp add: valid_def DeltaCurrent_clear_def wf_history_reset length_slots_reset)

lemma valid_plus_clear: "valid_plus p \<Longrightarrow> valid_plus (DeltaPlusCurrent_clear p)"
  by (simp add: valid_plus_def valid_def DeltaPlusCurrent_clear_def wf_history_reset
      length_slots_reset)

lemma DeltaCurrent_forward_current:
  assumes "valid s" "length spikes = units s"
  shows "DeltaCurrent_forward s (spikes # others) =
         Inr (map (\<lambda>b. of_bool b * (spike_q s / dt s)) spikes,
              s\<lparr>spike_hist := write_obs (spike_hist s) spikes\<rparr>)"
  using assms
  by (simp add: DeltaCurrent_forward_def set_spike_def derived_current_def to_current_def
      peek_write_obs valid_def wf_history_def)

lemma valid_forward:
  assumes "valid s" "DeltaCurrent_forward s inputs = Inr (c, s')"
  shows "valid s'"
proof (cases inputs)
  case Nil
  then show ?thesis using assms by (simp add: DeltaCurrent_forward_def)
next
  case (Cons x others)
  then have "length x = units s" and "s' = s\<lparr>spike_hist := write_obs (spike_hist s) x\<rparr>"
    using assms(2) by (auto simp: DeltaCurrent_forward_def set_spike_def split: if_splits)
  then show ?thesis
    using assms(1) by (simp add: valid_def wf_history_write_obs length_slots_write_obs)
qed

lemma valid_init:
  assumes "DeltaCurrent_init k = Inr s"
  shows "valid s"
proof -
  from assms obtain i where
    k: "0 < kw_step_time k" "0 \<le> kw_delay k" "1 \<le> kw_batch_size k" "kw_spike_q k \<noteq> 0"
    and i: "match_interp_mode (kw_interp_mode k) = Inr i"
    by (auto simp: DeltaCurrent_init_def InfernoSynapse_init_def argtest_neq_def
        split: if_splits sum.splits)
  have "wf_history (length (replicate n False))
          (new_history (capacity (kw_delay k) (kw_step_time k)) (replicate n False))" for n
    by (rule wf_history_new)
  then have wf: "wf_history n
          (new_history (capacity (kw_delay k) (kw_step_time k)) (replicate n False))" for n
    by simp
  show ?thesis
    using assms k i wf
    by (auto simp: DeltaCurrent_init_def InfernoSynapse_init_def argtest_neq_def valid_def
        new_history_def units_def)
qed

lemma valid_plus_init:
  assumes "DeltaPlusCurrent_init k = Inr p"
  shows "valid_plus p"
proof -
  from assms obtain i where
    k: "0 < kw_step_time k" "0 \<le> kw_delay k" "1 \<le> kw_batch_size k" "kw_spike_q k \<noteq> 0"
    and i: "match_interp_mode (kw_interp_mode k) = Inr i"
    by (auto simp: DeltaPlusCurrent_init_def InfernoSynapse_init_def argtest_neq_def
        split: if_splits sum.splits)
  show ?thesis
    using assms k i
    by (auto simp: DeltaPlusCurrent_init_def InfernoSynapse_init_def argtest_neq_def
        valid_plus_def valid_def wf_history_new_replicate units_def)
       (simp_all add: new_history_def)
qed

lemma valid_plus_forward:
  assumes "valid_plus p" "DeltaPlusCurrent_forward p inputs = Inr (c, p')"
  shows "valid_plus p'"
proof (cases inputs)
  case Nil
  then show ?thesis using assms by (simp add: DeltaPlusCurrent_forward_def)
next
  case (Cons x injected)
  let ?spk = "map (\<lambda>v. v \<noteq> 0) (data x)"
  let ?s1 = "p\<lparr>spike_hist := write_obs (spike_hist p) ?spk\<rparr>"
  from assms(2) Cons obtain tot where
    l1: "length ?spk = units p" and l2: "length (data tot) = units p"
    and p': "p' = ?s1\<lparr>current_hist := write_obs (current_hist ?s1) (data tot)\<rparr>"
    by (auto simp: DeltaPlusCurrent_forward_def set_spike_def set_current_def
        split: if_splits sum.splits)
  show ?thesis
    using assms(1) l1 l2 unfolding p'
    by (simp add: valid_plus_def valid_def wf_history_write_obs length_slots_write_obs)
qed

text \<open>
  An injected current of one element is broadcast to every unit.
\<close>

lemma tensor_sum_broadcast:
  "tensor_sum (Tensor [1, 2] [3, 0]) [Tensor [1] [1 / 2]] = Inr (Tensor [1, 2] [7 / 2, 1 / 2])"
  by (simp add: tensor_add_def pad_shape_def trains_def upt_rec numeral_2_eq_2)

text \<open>
  C9. For every valid \<open>DeltaCurrent\<close> and every valid \<open>DeltaPlusCurrent\<close>, \<open>clear\<close> followed
  by one \<open>forward\<close> step whose input is all \<open>False\<close> (the all-zero tensor of the batched
  shape, with no injected current) returns the all-zero current and leaves every slot of
  the spike history \<open>False\<close> (and of the current history zero): the resting state.
\<close>

theorem clear_then_zero_step:
  assumes "valid s" and "valid_plus p"
  shows "(\<exists>s'. DeltaCurrent_forward (DeltaCurrent_clear s) [replicate (units s) False]
                 = Inr (replicate (units s) 0, s')
              \<and> resting False (spike_hist s'))
       \<and> (\<exists>p'. DeltaPlusCurrent_forward (DeltaPlusCurrent_clear p)
                   [Tensor (batch_size p # unit_shape p) (replicate (units p) 0)]
                 = Inr (replicate (units p) 0, p')
              \<and> resting False (spike_hist p') \<and> resting 0 (current_hist p'))"
proof
  let ?c = "DeltaCurrent_clear s"
  have v: "valid ?c" using assms(1) by (rule valid_clear)
  have u: "units ?c = units s" by (simp add: DeltaCurrent_clear_def)
  have "DeltaCurrent_forward ?c [replicate (units s) False] =
        Inr (replicate (units s) 0,
             ?c\<lparr>spike_hist := write_obs (spike_hist ?c) (replicate (units s) False)\<rparr>)"
    using DeltaCurrent_forward_current[OF v, of "replicate (units s) False" "[]"] u
    by simp
  moreover have "resting False (write_obs (spike_hist ?c) (replicate (units s) False))"
    by (simp add: DeltaCurrent_clear_def resting_write_obs resting_reset list_all_iff)
  ultimately show "\<exists>s'. DeltaCurrent_forward ?c [replicate (units s) False]
                 = Inr (replicate (units s) 0, s') \<and> resting False (spike_hist s')"
    by simp
next
  let ?c = "DeltaPlusCurrent_clear p"
  let ?n = "units p"
  have v: "valid_plus ?c" using assms(2) by (rule valid_plus_clear)
  have u: "units ?c = ?n" by (simp add: DeltaPlusCurrent_clear_def)
  have ne: "slots (spike_hist ?c) \<noteq> []" "slots (current_hist ?c) \<noteq> []"
    using v by (simp_all add: valid_plus_def valid_def wf_history_def)
  let ?s1 = "?c\<lparr>spike_hist := write_obs (spike_hist ?c) (replicate ?n False)\<rparr>"
  let ?s2 = "?s1\<lparr>current_hist := write_obs (current_hist ?s1) (replicate ?n 0)\<rparr>"
  have spike: "set_spike ?c (map (\<lambda>v. v \<noteq> 0) (replicate ?n (0::real))) = Inr ?s1"
    using u by (simp add: set_spike_def)
  have cur: "set_current ?s1 (replicate ?n 0) = Inr ?s2"
    using u by (simp add: set_current_def)
  let ?x = "Tensor (batch_size p # unit_shape p) (replicate ?n (0::real))"
  have spike': "set_spike ?c (map (\<lambda>v. v \<noteq> 0) (data ?x)) = Inr ?s1"
    using spike by simp
  have "DeltaPlusCurrent_forward ?c [?x] = Inr (peek (current_hist ?s2), ?s2)"
    unfolding DeltaPlusCurrent_forward_def
    by (simp only: list.case spike' sum.case) (simp add: cur)
  moreover have "peek (current_hist ?s2) = replicate ?n 0"
    using ne by (simp add: peek_write_obs)
  moreover have "resting False (spike_hist ?s2)"
    by (simp add: DeltaPlusCurrent_clear_def resting_write_obs resting_reset list_all_iff)
  moreover have "resting 0 (current_hist ?s2)"
    by (simp add: DeltaPlusCurrent_clear_def resting_write_obs resting_reset list_all_iff)
  ultimately show "\<exists>p'. DeltaPlusCurrent_forward ?c
                   [Tensor (batch_size p # unit_shape p) (replicate ?n 0)]
                 = Inr (replicate ?n 0, p')
              \<and> resting False (spike_hist p') \<and> resting 0 (current_hist p')"
    by simp
qed

text \<open>Two synapses of two units and two slots, with spikes and currents in their histories.\<close>

theorem clear_then_zero_step_witness:
  "(\<exists>s'. DeltaCurrent_forward
            (DeltaCurrent_clear
              \<lparr>unit_shape = [2], dt = 1, delay = 1, batch_size = 1, spike_q = 3,
               current_interp = interp_previous, spike_interp = interp_previous,
               current_overbound = Some 0, spike_overbound = Some False, tolerance = 0,
               spike_hist = \<lparr>slots = [[True, False], [True, True]], counter = 5\<rparr>\<rparr>)
            [[False, False]] = Inr ([0, 0], s')
          \<and> resting False (spike_hist s'))
   \<and> (\<exists>p'. DeltaPlusCurrent_forward
            (DeltaPlusCurrent_clear
              \<lparr>unit_shape = [2], dt = 1, delay = 1, batch_size = 1, spike_q = 3,
               current_interp = interp_previous, spike_interp = interp_previous,
               current_overbound = Some 0, spike_overbound = Some False, tolerance = 0,
               spike_hist = \<lparr>slots = [[True, False], [True, True]], counter = 5\<rparr>,
               current_hist = \<lparr>slots = [[3, 0], [4, 3]], counter = 5\<rparr>\<rparr>)
            [Tensor [1, 2] [0, 0]] = Inr ([0, 0], p')
          \<and> resting False (spike_hist p') \<and> resting 0 (current_hist p'))"
  using clear_then_zero_step[of
      "\<lparr>unit_shape = [2], dt = 1, delay = 1, batch_size = 1, spike_q = 3,
        current_interp = interp_previous, spike_interp = interp_previous,
        current_overbound = Some 0, spike_overbound = Some False, tolerance = 0,
        spike_hist = \<lparr>slots = [[True, False], [True, True]], counter = 5\<rparr>\<rparr>"
      "\<lparr>unit_shape = [2], dt = 1, delay = 1, batch_size = 1, spike_q = 3,
        current_interp = interp_previous, spike_interp = interp_previous,
        current_overbound = Some 0, spike_overbound = Some False, tolerance = 0,
        spike_hist = \<lparr>slots = [[True, False], [True, True]], counter = 5\<rparr>,
        current_hist = \<lparr>slots = [[3, 0], [4, 3]], counter = 5\<rparr>\<rparr>"]
  by (simp add: valid_plus_def valid_def wf_history_def capacity_def units_def
      eval_nat_numeral)

subsection \<open>Reading the delay line\<close>

lemma by_age_first_write:
  assumes "0 < cap"
  shows "by_age (write_obs (new_history cap init) v) = v # replicate (cap - 1) init"
proof (rule nth_equalityI)
  show "length (by_age (write_obs (new_history cap init) v)) = length (v # replicate (cap - 1) init)"
    using assms by (simp add: by_age_def write_obs_def new_history_def)
next
  fix i assume "i < length (by_age (write_obs (new_history cap init) v))"
  then have i: "i < cap" by (simp add: by_age_def write_obs_def new_history_def)
  show "by_age (write_obs (new_history cap init) v) ! i = (v # replicate (cap - 1) init) ! i"
  proof (cases i)
    case 0
    then show ?thesis
      using assms by (simp add: by_age_def at_age_def write_obs_def new_history_def)
  next
    case (Suc j)
    then have "(cap - i) mod cap = cap - i" "cap - i \<noteq> 0" "cap - i < cap" using i by simp_all
    then show ?thesis
      using i Suc by (simp add: by_age_def at_age_def write_obs_def new_history_def)
  qed
qed

lemma interp_at_grid:
  assumes "0 < step"
  shows "interp_at mode tol step vals (real j * step) = vals ! j"
  using assms by (simp add: interp_at_def interpolate_def)

lemma read_at_grid:
  assumes "0 < step" "real j * step \<le> max_delay"
    and "\<forall>u < n. hist ! j ! u = row ! u" "length row = n" "j < length hist"
  shows "read_at mode tol overbound step max_delay hist n [real j * step] = Inr row"
proof -
  have "map (\<lambda>u. interp_at mode tol step (map (\<lambda>obs. obs ! u) hist) (real j * step)) [0..<n]
        = map (\<lambda>u. row ! u) [0..<n]"
    using assms by (simp add: interp_at_grid)
  also have "\<dots> = row" using map_nth[of row] assms(4) by simp
  finally have "map (\<lambda>u. interp_at mode tol step (map (\<lambda>obs. obs ! u) hist) (real j * step))
      [0..<n] = row" .
  moreover have "0 \<le> real j * step" using assms(1) by (intro mult_nonneg_nonneg) simp_all
  then have "\<not> real j * step < 0" by simp
  ultimately show ?thesis
    using assms(2) by (simp add: read_at_def Let_def)
qed

lemma read_at_overbound:
  assumes "max_delay < d"
  shows "read_at mode tol (Some c) step max_delay hist n [d] = Inr (replicate n c)"
  using assms by (simp add: read_at_def map_replicate_const)

text \<open>
  C1. A \<open>DeltaCurrent\<close> constructed with \<open>step_time = 1\<close>, \<open>spike_q = 1\<close>, the mode
  \<open>previous\<close> and the default overbound current 0 (any shape, batch size and maximum
  delay that construction accepts), after one step on a spike tensor: the step returns 1
  for every unit that spiked and 0 for the others, \<open>current_at(0)\<close> returns the same, and
  \<open>current_at(1)\<close> returns 0 for every unit. In general, a step of a valid synapse returns
  \<open>spike * (spike_q / dt)\<close> per unit.
\<close>

theorem delta_single_spike:
  assumes k: "kw_step_time k = 1" "kw_spike_q k = 1" "kw_interp_mode k = ''previous''"
      "kw_current_overbound k = Some 0" "0 \<le> kw_delay k" "1 \<le> kw_batch_size k"
    and len: "length spikes = nat (kw_batch_size k) * prod_list (kw_shape k)"
    and v: "valid s" and n: "length x = units s"
  shows "(\<exists>s0 s1. DeltaCurrent_init k = Inr s0
            \<and> DeltaCurrent_forward s0 [spikes] = Inr (map of_bool spikes, s1)
            \<and> DeltaCurrent_current_at s1 [0] = Inr (map of_bool spikes)
            \<and> DeltaCurrent_current_at s1 [1] = Inr (replicate (length spikes) 0))
       \<and> (\<exists>s'. DeltaCurrent_forward s (x # others)
                  = Inr (map (\<lambda>b. of_bool b * (spike_q s / dt s)) x, s'))"
proof
  let ?n = "length spikes"
  let ?cap = "capacity (kw_delay k) 1"
  let ?h0 = "new_history ?cap (replicate ?n False)"
  let ?s0 = "\<lparr>unit_shape = kw_shape k, dt = 1, delay = kw_delay k,
              batch_size = nat (kw_batch_size k), spike_q = 1,
              current_interp = interp_previous, spike_interp = interp_previous,
              current_overbound = Some 0, spike_overbound = kw_spike_overbound k,
              tolerance = kw_interp_tol k, spike_hist = ?h0\<rparr>"
  let ?s1 = "?s0\<lparr>spike_hist := write_obs ?h0 spikes\<rparr>"
  have init: "DeltaCurrent_init k = Inr ?s0"
    using k len
    by (simp add: DeltaCurrent_init_def InfernoSynapse_init_def argtest_neq_def
        match_interp_mode_def lower_def lower_char_def units_def)
  have v0: "valid ?s0" using init by (rule valid_init)
  have u0: "units ?s0 = ?n" using len by (simp add: units_def)
  have fwd: "DeltaCurrent_forward ?s0 [spikes] = Inr (map of_bool spikes, ?s1)"
    using DeltaCurrent_forward_current[OF v0, of spikes "[]"] u0 by simp
  have cap: "0 < ?cap" by (simp add: capacity_def)
  have hist: "map (to_current ?s1) (by_age (spike_hist ?s1))
        = map of_bool spikes # replicate (?cap - 1) (replicate ?n 0)"
    by (simp add: by_age_first_write[OF cap] to_current_def)
  have cur_at: "DeltaCurrent_current_at ?s1 ds =
      read_at interp_previous (kw_interp_tol k) (Some 0) 1 (kw_delay k)
        (map of_bool spikes # replicate (?cap - 1) (replicate ?n 0)) ?n ds" for ds
    unfolding DeltaCurrent_current_at_def hist using len by (simp add: units_def)
  have at0: "DeltaCurrent_current_at ?s1 [0] = Inr (map of_bool spikes)"
    unfolding cur_at
    using read_at_grid[of 1 0 "kw_delay k" ?n
        "map of_bool spikes # replicate (?cap - 1) (replicate ?n 0)" "map of_bool spikes"
        interp_previous "kw_interp_tol k" "Some 0"] k(5)
    by simp
  have at1: "DeltaCurrent_current_at ?s1 [1] = Inr (replicate ?n 0)"
  proof (cases "kw_delay k < 1")
    case True
    then show ?thesis
      unfolding cur_at
      using read_at_overbound[of "kw_delay k" 1]
      by simp
  next
    case False
    then have "1 \<le> \<lceil>kw_delay k\<rceil>" by linarith
    then have c2: "1 < ?cap" by (simp add: capacity_def)
    show ?thesis
      unfolding cur_at
      using read_at_grid[of 1 1 "kw_delay k" ?n
          "map of_bool spikes # replicate (?cap - 1) (replicate ?n 0)" "replicate ?n 0"
          interp_previous "kw_interp_tol k" "Some 0"] False c2
      by simp
  qed
  show "\<exists>s0 s1. DeltaCurrent_init k = Inr s0
            \<and> DeltaCurrent_forward s0 [spikes] = Inr (map of_bool spikes, s1)
            \<and> DeltaCurrent_current_at s1 [0] = Inr (map of_bool spikes)
            \<and> DeltaCurrent_current_at s1 [1] = Inr (replicate (length spikes) 0)"
    using init fwd at0 at1 by blast
next
  show "\<exists>s'. DeltaCurrent_forward s (x # others)
                  = Inr (map (\<lambda>b. of_bool b * (spike_q s / dt s)) x, s')"
    using DeltaCurrent_forward_current[OF v n] by simp
qed

text \<open>
  Two units of which the first spikes; and, for the general part, a synapse with
  \<open>dt = 2\<close> and \<open>spike_q = 3\<close>.
\<close>

theorem delta_single_spike_witness:
  "(\<exists>s0 s1. DeltaCurrent_init (defaults [2] 1 1) = Inr s0
        \<and> DeltaCurrent_forward s0 [[True, False]] = Inr ([1, 0], s1)
        \<and> DeltaCurrent_current_at s1 [0] = Inr [1, 0]
        \<and> DeltaCurrent_current_at s1 [1] = Inr [0, 0])
   \<and> (\<exists>s'. DeltaCurrent_forward
              \<lparr>unit_shape = [2], dt = 2, delay = 0, batch_size = 1, spike_q = 3,
               current_interp = interp_nearest, spike_interp = interp_nearest,
               current_overbound = None, spike_overbound = None, tolerance = 0,
               spike_hist = \<lparr>slots = [[True, True]], counter = 7\<rparr>\<rparr>
              [[False, True]] = Inr ([0, 3 / 2], s'))"
  using delta_single_spike[of "defaults [2] 1 1" "[True, False]"
      "\<lparr>unit_shape = [2], dt = 2, delay = 0, batch_size = 1, spike_q = 3,
        current_interp = interp_nearest, spike_interp = interp_nearest,
        current_overbound = None, spike_overbound = None, tolerance = 0,
        spike_hist = \<lparr>slots = [[True, True]], counter = 7\<rparr>\<rparr>" "[False, True]" "[]"]
  by (simp add: defaults_def valid_def wf_history_def capacity_def units_def)

section \<open>Connections: results\<close>

lemma new_tensor_ok: "\<forall>n \<in> set sizes. 0 \<le> n \<Longrightarrow> new_tensor sizes = Inr sizes"
  by (auto simp: new_tensor_def list_ex_iff)

lemma optional_tensor_ok:
  "\<forall>n \<in> set sizes. 0 \<le> n \<Longrightarrow>
   optional_tensor skip sizes = Inr (if skip then None else Some sizes)"
  by (simp add: optional_tensor_def new_tensor_ok)

text \<open>
  With \<open>DeltaCurrent.partialconstructor\<close> as the synapse constructor, a \<open>DenseLinear\<close>
  with a positive delay \<open>d\<close> and sizes that are not negative calls the synapse class with
  \<open>delay\<close> bound to the batch size and \<open>batch_size\<close> bound to \<open>d\<close>.
\<close>

lemma DenseLinear_arguments:
  assumes "0 < step_time" "0 < d" "0 \<le> prod_list in_shp" "0 \<le> prod_list out_shp"
  shows "\<exists>c. DenseLinear_init in_shp out_shp step_time (partialconstructor q m tol co so)
                batch bias (Some d) = Inr c
             \<and> arg_delay (synapse c) = PInt batch
             \<and> arg_batch_size (synapse c) = PFloat d"
  using assms
  by (simp add: DenseLinear_init_def partialconstructor_def delay_arg_def Let_def
      new_tensor_ok optional_tensor_ok)

text \<open>
  C3. The claim promises that the inner synapse of a \<open>DenseLinear\<close> with delay \<open>D\<close> and
  batch size \<open>B\<close> is constructed with maximum delay \<open>D\<close> and batch size \<open>B\<close>. The source
  calls \<^verbatim>\<open>synapse(input_size, float(step_time), int(batch_size), float(delay))\<close> while the
  constructor's parameters are \<open>(shape, step_time, delay, batch_size)\<close>: for step time 1,
  delay 2.0 and batch size 4 the synapse class is called with \<open>delay = 4\<close> and
  \<open>batch_size = 2.0\<close>.
\<close>

theorem DenseLinear_synapse_arguments_swapped:
  "DenseLinear_init [3] [2] 1 (partialconstructor 1 ''previous'' 0 (Some 0) (Some False)) 4
     False (Some 2)
   = Inr \<lparr>synapse =
            \<lparr>arg_shape = PInt 3, arg_step_time = PFloat 1, arg_spike_q = 1,
             arg_delay = PInt 4, arg_interp_mode = ''previous'', arg_interp_tol = 0,
             arg_current_overbound = Some 0, arg_spike_overbound = Some False,
             arg_batch_size = PFloat 2\<rparr>,
          weight_shape = [2, 3], bias_shape = None, delay_shape = Some [2, 3],
          in_shape = [3], out_shape = [2]\<rparr>"
  by (simp add: DenseLinear_init_def partialconstructor_def delay_arg_def not_delay_def
      new_tensor_def optional_tensor_def)

text \<open>
  A negative size is refused when the weight tensor is created, after the synapse
  constructor has returned.
\<close>

lemma connection_negative_size:
  assumes "0 < step_time" "case max_delay of None \<Rightarrow> True | Some d \<Rightarrow> 0 < d"
    and "syn_ctor (PInt (prod_list in_shp)) (PFloat step_time) (PInt batch)
           (delay_arg max_delay) = Inr syn"
    and "prod_list in_shp < 0 \<or> prod_list out_shp < 0"
  shows "DenseLinear_init in_shp out_shp step_time syn_ctor batch bias max_delay
         = Inl RuntimeError"
  using assms
  by (auto simp: DenseLinear_init_def Let_def new_tensor_def split: option.splits)

text \<open>
  The claim as stated fails: the maximum delay \<open>0.0\<close> is not negative, and the
  connections refuse it, with a \<open>ValueError\<close>.
\<close>

theorem connection_zero_delay_counterexample:
  "DenseLinear_init [3] [2] 1 (partialconstructor 1 ''previous'' 0 (Some 0) (Some False)) 1
     False (Some 0) = Inl ValueError
   \<and> DirectLinear_init [3] 1 (partialconstructor 1 ''previous'' 0 (Some 0) (Some False)) 1
     False (Some 0) = Inl ValueError"
  by (simp add: DenseLinear_init_def DirectLinear_init_def)

text \<open>
  C6, as amended. Constructing a \<open>DenseLinear\<close>, \<open>DirectLinear\<close> or \<open>LateralLinear\<close> with
  a step time that is not positive, or with a maximum delay that is given and is negative
  or zero, fails with a \<open>ValueError\<close>. A maximum delay of \<open>None\<close> or any positive maximum
  delay is accepted: with a positive step time the checks pass and the synapse
  constructor is called, so that an error of the synapse constructor is the error of the
  construction, and when the synapse constructor succeeds and no size of a shape is
  negative the connection is constructed, around that synapse.
\<close>

theorem connection_validation:
  "(step_time \<le> 0 \<or> (case max_delay of None \<Rightarrow> False | Some d \<Rightarrow> d \<le> 0) \<longrightarrow>
      DenseLinear_init in_shp out_shp step_time syn_ctor batch bias max_delay = Inl ValueError
      \<and> DirectLinear_init shp step_time syn_ctor batch bias max_delay = Inl ValueError
      \<and> LateralLinear_init shp step_time syn_ctor batch bias max_delay = Inl ValueError)
   \<and> (0 < step_time \<and> (case max_delay of None \<Rightarrow> True | Some d \<Rightarrow> 0 < d) \<longrightarrow>
      (\<forall>e. syn_ctor (PInt (prod_list in_shp)) (PFloat step_time) (PInt batch)
              (delay_arg max_delay) = Inl e \<longrightarrow>
           DenseLinear_init in_shp out_shp step_time syn_ctor batch bias max_delay = Inl e)
      \<and> (\<forall>e. syn_ctor (PInt (prod_list shp)) (PFloat step_time) (PInt batch)
              (delay_arg max_delay) = Inl e \<longrightarrow>
           DirectLinear_init shp step_time syn_ctor batch bias max_delay = Inl e
           \<and> LateralLinear_init shp step_time syn_ctor batch bias max_delay = Inl e)
      \<and> (\<forall>syn. syn_ctor (PInt (prod_list in_shp)) (PFloat step_time) (PInt batch)
                (delay_arg max_delay) = Inr syn
              \<and> 0 \<le> prod_list in_shp \<and> 0 \<le> prod_list out_shp \<longrightarrow>
           (\<exists>c. DenseLinear_init in_shp out_shp step_time syn_ctor batch bias max_delay
                  = Inr c \<and> synapse c = syn))
      \<and> (\<forall>syn. syn_ctor (PInt (prod_list shp)) (PFloat step_time) (PInt batch)
                (delay_arg max_delay) = Inr syn
              \<and> 0 \<le> prod_list shp \<longrightarrow>
           (\<exists>c. DirectLinear_init shp step_time syn_ctor batch bias max_delay = Inr c
                \<and> synapse c = syn)
           \<and> (\<exists>c. LateralLinear_init shp step_time syn_ctor batch bias max_delay = Inr c
                \<and> synapse c = syn)))"
proof (intro conjI impI allI)
  assume "step_time \<le> 0 \<or> (case max_delay of None \<Rightarrow> False | Some d \<Rightarrow> d \<le> 0)"
  then show
    "DenseLinear_init in_shp out_shp step_time syn_ctor batch bias max_delay = Inl ValueError"
    "DirectLinear_init shp step_time syn_ctor batch bias max_delay = Inl ValueError"
    "LateralLinear_init shp step_time syn_ctor batch bias max_delay = Inl ValueError"
    by (auto simp: DenseLinear_init_def DirectLinear_init_def LateralLinear_init_def Let_def)
next
  assume ok: "0 < step_time \<and> (case max_delay of None \<Rightarrow> True | Some d \<Rightarrow> 0 < d)"
  then have checks: "\<not> step_time \<le> 0"
    "\<not> (case max_delay of None \<Rightarrow> False | Some d \<Rightarrow> d \<le> 0)"
    by (auto split: option.splits)
  {
    fix e
    assume "syn_ctor (PInt (prod_list in_shp)) (PFloat step_time) (PInt batch)
              (delay_arg max_delay) = Inl e"
    then show
      "DenseLinear_init in_shp out_shp step_time syn_ctor batch bias max_delay = Inl e"
      using checks by (simp add: DenseLinear_init_def Let_def)
  }
  {
    fix e
    assume "syn_ctor (PInt (prod_list shp)) (PFloat step_time) (PInt batch)
              (delay_arg max_delay) = Inl e"
    then show "DirectLinear_init shp step_time syn_ctor batch bias max_delay = Inl e"
      "LateralLinear_init shp step_time syn_ctor batch bias max_delay = Inl e"
      using checks by (simp_all add: DirectLinear_init_def LateralLinear_init_def Let_def)
  }
  {
    fix syn
    assume "syn_ctor (PInt (prod_list in_shp)) (PFloat step_time) (PInt batch)
              (delay_arg max_delay) = Inr syn
            \<and> 0 \<le> prod_list in_shp \<and> 0 \<le> prod_list out_shp"
    then show "\<exists>c. DenseLinear_init in_shp out_shp step_time syn_ctor batch bias max_delay
                  = Inr c \<and> synapse c = syn"
      using checks
      by (simp add: DenseLinear_init_def Let_def new_tensor_ok optional_tensor_ok)
  }
  {
    fix syn
    assume "syn_ctor (PInt (prod_list shp)) (PFloat step_time) (PInt batch)
              (delay_arg max_delay) = Inr syn \<and> 0 \<le> prod_list shp"
    then show "\<exists>c. DirectLinear_init shp step_time syn_ctor batch bias max_delay = Inr c
                \<and> synapse c = syn"
      "\<exists>c. LateralLinear_init shp step_time syn_ctor batch bias max_delay = Inr c
                \<and> synapse c = syn"
      using checks
      by (simp_all add: DirectLinear_init_def LateralLinear_init_def Let_def new_tensor_ok
          optional_tensor_ok)
  }
qed

text \<open>
  Step time 0; delay -1; delay 0.5 with a synapse constructor that succeeds; no delay
  with a synapse constructor that raises \<open>TypeError\<close>.
\<close>

theorem connection_validation_witness:
  "DenseLinear_init [3] [2] 0 (partialconstructor 1 ''previous'' 0 (Some 0) (Some False)) 1
     False None = Inl ValueError
   \<and> DirectLinear_init [3] 1 (partialconstructor 1 ''previous'' 0 (Some 0) (Some False)) 1
     False (Some (-1)) = Inl ValueError
   \<and> \<not> isl (DenseLinear_init [3] [2] 1
              (partialconstructor 1 ''previous'' 0 (Some 0) (Some False)) 1 False (Some (1 / 2)))
   \<and> \<not> isl (DirectLinear_init [3] 1
              (partialconstructor 1 ''previous'' 0 (Some 0) (Some False)) 1 False (Some (1 / 2)))
   \<and> LateralLinear_init [3] 1 (\<lambda>shp step_time max_delay batch. Inl TypeError) 1 False None
       = (Inl TypeError :: error + cls_call Connection)"
  using connection_validation[of 0 None "[3]" "[2]"
      "partialconstructor 1 ''previous'' 0 (Some 0) (Some False)" 1 False "[3]"]
    connection_validation[of 1 "Some (-1)" "[3]" "[2]"
      "partialconstructor 1 ''previous'' 0 (Some 0) (Some False)" 1 False "[3]"]
    connection_validation[of 1 "Some (1 / 2)" "[3]" "[2]"
      "partialconstructor 1 ''previous'' 0 (Some 0) (Some False)" 1 False "[3]"]
    connection_validation[of 1 None "[3]" "[2]"
      "\<lambda>shp step_time max_delay batch. (Inl TypeError :: error + cls_call)" 1 False "[3]"]
  by (auto simp: partialconstructor_def)

end
